theory Spec2Isabelle
  imports Main
begin

section \<open>Strings and the regular expressions of the validators\<close>

text \<open>
  A JavaScript string is modelled as a \<^typ>\<open>string\<close>: a list of code units below 256
  (Latin-1). The character classes of the source are predicates on a code unit.
  \<open>\d\<close> is the ASCII digits, \<open>\D\<close> its complement, and \<open>\s\<close> the white space and line
  terminators of ECMAScript; below 256 these are TAB, LF, VT, FF, CR, SPACE and NBSP.
\<close>

definition isDigit :: "char \<Rightarrow> bool" where
  "isDigit c = (c \<in> set ''0123456789'')"

definition isNonDigit :: "char \<Rightarrow> bool" where
  "isNonDigit c = (\<not> isDigit c)"

definition isSpace :: "char \<Rightarrow> bool" where
  "isSpace c =
     (c \<in> set [CHR 0x09, CHR 0x0A, CHR 0x0B, CHR 0x0C, CHR 0x0D, CHR 0x20, CHR 0xA0])"

text \<open>
  The patterns of the source are all of the shape \<open>^ p1 p2 ... pn $\<close>, where each piece is a
  single atom (a literal or a character class) or an atom under \<open>+\<close>. A pattern is a list of
  pieces; both anchors are part of the matcher.
\<close>

datatype atom = Lit char | Cls "char \<Rightarrow> bool"

datatype piece = One atom | OneOrMore atom

fun atom_ok :: "atom \<Rightarrow> char \<Rightarrow> bool" where
  "atom_ok (Lit a) c = (c = a)"
| "atom_ok (Cls p) c = p c"

text \<open>The inputs left over after an atom under \<open>+\<close> has consumed one, two, ... code units.\<close>

fun plus_rests :: "atom \<Rightarrow> string \<Rightarrow> string list" where
  "plus_rests a [] = []"
| "plus_rests a (c # cs) = (if atom_ok a c then cs # plus_rests a cs else [])"

fun piece_rests :: "piece \<Rightarrow> string \<Rightarrow> string list" where
  "piece_rests (One a) [] = []"
| "piece_rests (One a) (c # cs) = (if atom_ok a c then [cs] else [])"
| "piece_rests (OneOrMore a) s = plus_rests a s"

text \<open>
  \<open>RegExp.prototype.test\<close> for an anchored pattern without flags: some way of matching the
  pieces in order consumes the whole input.
\<close>

fun test :: "piece list \<Rightarrow> string \<Rightarrow> bool" where
  "test [] s = (s = [])"
| "test (p # ps) s = list_ex (test ps) (piece_rests p s)"

text \<open>\<open>s.replace(/C/g, '')\<close> for a character class \<open>C\<close>: every code unit in the class is dropped.\<close>

definition replace_all_empty :: "(char \<Rightarrow> bool) \<Rightarrow> string \<Rightarrow> string" where
  "replace_all_empty cls s = filter (\<lambda>c. \<not> cls c) s"

text \<open>\<open>String.prototype.trim\<close>.\<close>

definition trim :: "string \<Rightarrow> string" where
  "trim s = rev (dropWhile isSpace (rev (dropWhile isSpace s)))"

section \<open>Utils: the validators\<close>

text \<open>\<open>/^[^\s@]+@[^\s@]+\.[^\s@]+$/\<close>\<close>

definition notSpaceAt :: "char \<Rightarrow> bool" where
  "notSpaceAt c = (\<not> (isSpace c \<or> c = CHR ''@''))"

definition emailRegex :: "piece list" where
  "emailRegex =
     [OneOrMore (Cls notSpaceAt), One (Lit CHR ''@''), OneOrMore (Cls notSpaceAt),
      One (Lit CHR ''.''), OneOrMore (Cls notSpaceAt)]"

definition isValidEmail :: "string \<Rightarrow> bool" where
  "isValidEmail email = test emailRegex email"

text \<open>\<open>/^[\d\s\-\+\(\)]+$/\<close>\<close>

definition phoneChar :: "char \<Rightarrow> bool" where
  "phoneChar c = (isDigit c \<or> isSpace c \<or> c \<in> set ''-+()'')"

definition phoneRegex :: "piece list" where
  "phoneRegex = [OneOrMore (Cls phoneChar)]"

definition isValidPhone :: "string \<Rightarrow> bool" where
  "isValidPhone phone =
     (test phoneRegex phone \<and> length (replace_all_empty isNonDigit phone) \<ge> 10)"

section \<open>ContactForm: validation of one field\<close>

text \<open>
  What \<open>validateField\<close> reads of the DOM element: its value, its name, its type and whether
  it carries the \<open>required\<close> attribute.
\<close>

record form_field =
  fieldValue :: string
  fieldName :: string
  fieldType :: string
  fieldRequired :: bool

text \<open>
  The function returns \<open>isValid\<close>; the message it shows under the field (none when the field
  is valid or skipped) is the second component. The checks run in the order of the source,
  each one overwriting the verdict and the message of the ones before.
\<close>

definition validateField :: "form_field \<Rightarrow> bool \<times> string" where
  "validateField f =
     (let v = trim (fieldValue f);
          name = fieldName f;
          required = fieldRequired f
      in if fieldType f = ''hidden'' \<or> name = ''_honey'' then (True, '''')
         else
           let r0 = (True, '''');
               r1 = (if required \<and> v = [] then (False, ''This field is required'') else r0);
               r2 = (if name = ''email'' \<and> v \<noteq> [] \<and> \<not> test emailRegex v
                     then (False, ''Please enter a valid email address'') else r1);
               r3 = (if name = ''phone'' \<and> v \<noteq> []
                        \<and> length (replace_all_empty isNonDigit v) < 10
                     then (False, ''Please enter a valid phone number (minimum 10 digits)'')
                     else r2);
               r4 = (if name = ''service'' \<and> required \<and> v = []
                     then (False, ''Please select a service'') else r3);
               r5 = (if name = ''message'' \<and> v \<noteq> [] \<and> length v < 10
                     then (False, ''Please provide more details (minimum 10 characters)'')
                     else r4)
           in r5)"

section \<open>Slider: options and breakpoint rules\<close>

text \<open>
  Numbers of the source are modelled as \<^typ>\<open>int\<close>: indices, counts, pixel positions and
  durations. The option \<open>infinite\<close> is named \<open>infinite_mode\<close> here.

  A settings object is a partial assignment of the options: \<open>None\<close> is a key the object does
  not have. The settings of a breakpoint rule are modelled over the twelve scalar options;
  \<open>no_settings\<close> is \<open>{}\<close>, and \<open>no_options\<close> is the constructor called without options.
\<close>

record settings =
  set_slidesToShow :: "int option"
  set_slidesToScroll :: "int option"
  set_autoplay :: "bool option"
  set_autoplaySpeed :: "int option"
  set_infinite :: "bool option"
  set_dots :: "bool option"
  set_arrows :: "bool option"
  set_draggable :: "bool option"
  set_swipeThreshold :: "int option"
  set_speed :: "int option"
  set_easing :: "string option"
  set_pauseOnHover :: "bool option"

record breakpoint_rule =
  breakpoint :: int
  settings :: settings

record slider_options =
  slidesToShow :: int
  slidesToScroll :: int
  autoplay :: bool
  autoplaySpeed :: int
  infinite_mode :: bool
  dots :: bool
  arrows :: bool
  draggable :: bool
  swipeThreshold :: int
  speed :: int
  easing :: string
  pauseOnHover :: bool
  responsive :: "breakpoint_rule list"

text \<open>The options object a caller passes to the constructor may also replace \<open>responsive\<close>.\<close>

record constructor_options = settings +
  set_responsive :: "breakpoint_rule list option"

definition no_settings :: settings where
  "no_settings =
     \<lparr>set_slidesToShow = None, set_slidesToScroll = None, set_autoplay = None,
      set_autoplaySpeed = None, set_infinite = None, set_dots = None, set_arrows = None,
      set_draggable = None, set_swipeThreshold = None, set_speed = None, set_easing = None,
      set_pauseOnHover = None\<rparr>"

definition no_options :: constructor_options where
  "no_options =
     \<lparr>set_slidesToShow = None, set_slidesToScroll = None, set_autoplay = None,
      set_autoplaySpeed = None, set_infinite = None, set_dots = None, set_arrows = None,
      set_draggable = None, set_swipeThreshold = None, set_speed = None, set_easing = None,
      set_pauseOnHover = None, set_responsive = None\<rparr>"

definition default_options :: slider_options where
  "default_options =
     \<lparr>slidesToShow = 1, slidesToScroll = 1, autoplay = False, autoplaySpeed = 3000,
      infinite_mode = True, dots = True, arrows = True, draggable = True,
      swipeThreshold = 50, speed = 300, easing = ''ease-out'', pauseOnHover = True,
      responsive = []\<rparr>"

definition override :: "'a option \<Rightarrow> 'a \<Rightarrow> 'a" where
  "override new old = (case new of None \<Rightarrow> old | Some v \<Rightarrow> v)"

text \<open>\<open>Object.assign(options, settings)\<close>: every key of the settings replaces the option.\<close>

definition assign :: "slider_options \<Rightarrow> 'a settings_scheme \<Rightarrow> slider_options" where
  "assign opt t =
     opt\<lparr>slidesToShow := override (set_slidesToShow t) (slidesToShow opt),
         slidesToScroll := override (set_slidesToScroll t) (slidesToScroll opt),
         autoplay := override (set_autoplay t) (autoplay opt),
         autoplaySpeed := override (set_autoplaySpeed t) (autoplaySpeed opt),
         infinite_mode := override (set_infinite t) (infinite_mode opt),
         dots := override (set_dots t) (dots opt),
         arrows := override (set_arrows t) (arrows opt),
         draggable := override (set_draggable t) (draggable opt),
         swipeThreshold := override (set_swipeThreshold t) (swipeThreshold opt),
         speed := override (set_speed t) (speed opt),
         easing := override (set_easing t) (easing opt),
         pauseOnHover := override (set_pauseOnHover t) (pauseOnHover opt)\<rparr>"

text \<open>The options already carry every key of the settings: assigning them changes nothing.\<close>

definition has_settings :: "slider_options \<Rightarrow> 'a settings_scheme \<Rightarrow> bool" where
  "has_settings opt t = (assign opt t = opt)"

text \<open>The constructor's \<open>{ ...defaults, ...options }\<close>.\<close>

definition merge_options :: "constructor_options \<Rightarrow> slider_options" where
  "merge_options c =
     (let opt = assign default_options c
      in opt\<lparr>responsive := override (set_responsive c) (responsive opt)\<rparr>)"

section \<open>Slider: state\<close>

text \<open>
  The state of one \<open>Slider\<close> object and of the part of the page it writes: the inline
  \<open>transform\<close> (\<open>translateX\<close>, in pixels), \<open>transition\<close> and \<open>cursor\<close> of the track, the
  \<open>active\<close> class of each slide and of each dot (\<open>None\<close> when no dots were created), the
  \<open>slideChange\<close> events dispatched so far with the index each one carries, and the time-outs
  that are set and have not fired yet. \<open>slideWidth\<close> is the \<open>offsetWidth\<close> of the first
  slide, which the layout supplies. \<open>startX\<close>, \<open>currentX\<close> and \<open>isDragging\<close> are the variables
  the drag handlers close over; \<open>dragInstalled\<close> says whether \<open>setupEvents\<close> has registered
  these handlers, which it does once, when the option \<open>draggable\<close> is set at that moment.

  The operations below are those of a slider that \<open>init\<close> has set up, that is, one with at
  least one slide; \<open>init\<close> returns before installing any control or listener otherwise.
\<close>

datatype css_transition = TransitionUnset | TransitionNone | TransitionTransform int string

datatype timer = TransitionEnd | RestoreTransition

record slider =
  currentSlide :: int
  totalSlides :: int
  isAnimating :: bool
  options :: slider_options
  slideWidth :: int
  trackTransform :: int
  trackTransition :: css_transition
  trackCursor :: string
  slideActive :: "bool list"
  dotActive :: "bool list option"
  events :: "(string \<times> int) list"
  timers :: "timer list"
  startX :: int
  currentX :: int
  isDragging :: bool
  dragInstalled :: bool

section \<open>Slider: operations\<close>

definition active_marks :: "int \<Rightarrow> nat \<Rightarrow> bool list" where
  "active_marks cur n = map (\<lambda>i. int i = cur) [0..<n]"

definition updateActiveStates :: "slider \<Rightarrow> slider" where
  "updateActiveStates s =
     s\<lparr>slideActive := active_marks (currentSlide s) (length (slideActive s)),
       dotActive := map_option (\<lambda>ds. active_marks (currentSlide s) (length ds)) (dotActive s)\<rparr>"

definition dispatchEvent :: "string \<Rightarrow> int \<Rightarrow> slider \<Rightarrow> slider" where
  "dispatchEvent eventName detail s = s\<lparr>events := events s @ [(eventName, detail)]\<rparr>"

definition setTimeout :: "timer \<Rightarrow> slider \<Rightarrow> slider" where
  "setTimeout t s = s\<lparr>timers := timers s @ [t]\<rparr>"

definition goToSlide :: "int \<Rightarrow> slider \<Rightarrow> slider" where
  "goToSlide index s =
     (if isAnimating s then s
      else
        let s1 = s\<lparr>isAnimating := True, currentSlide := index\<rparr>;
            offset = - index * slideWidth s1;
            s2 = s1\<lparr>trackTransform := offset\<rparr>;
            s3 = updateActiveStates s2;
            s4 = setTimeout TransitionEnd s3
        in dispatchEvent ''slideChange'' (currentSlide s4) s4)"

text \<open>
  \<open>next\<close> and \<open>prev\<close> compute an index and hand it to \<open>goToSlide\<close>; \<open>next_target\<close> and
  \<open>prev_target\<close> are the values of their local variables \<open>nextSlide\<close> and \<open>prevSlide\<close> at
  that call.
\<close>

definition next_target :: "slider \<Rightarrow> int" where
  "next_target s =
     (let nextSlide = currentSlide s + slidesToScroll (options s)
      in if nextSlide \<ge> totalSlides s
         then (if infinite_mode (options s) then 0 else totalSlides s - 1)
         else nextSlide)"

definition "next" :: "slider \<Rightarrow> slider" where
  "next s = goToSlide (next_target s) s"

definition prev_target :: "slider \<Rightarrow> int" where
  "prev_target s =
     (let prevSlide = currentSlide s - slidesToScroll (options s)
      in if prevSlide < 0
         then (if infinite_mode (options s) then totalSlides s - 1 else 0)
         else prevSlide)"

definition prev :: "slider \<Rightarrow> slider" where
  "prev s = goToSlide (prev_target s) s"

definition handleInfiniteLoop :: "slider \<Rightarrow> slider" where
  "handleInfiniteLoop s =
     (if currentSlide s \<ge> totalSlides s then
        setTimeout RestoreTransition
          (goToSlide 0 (s\<lparr>currentSlide := 0, trackTransition := TransitionNone\<rparr>))
      else if currentSlide s < 0 then
        setTimeout RestoreTransition
          (goToSlide (totalSlides s - 1)
             (s\<lparr>currentSlide := totalSlides s - 1, trackTransition := TransitionNone\<rparr>))
      else s)"

text \<open>The two callbacks handed to \<open>setTimeout\<close>.\<close>

definition transitionEnd :: "slider \<Rightarrow> slider" where
  "transitionEnd s =
     (let s1 = s\<lparr>isAnimating := False\<rparr>
      in if infinite_mode (options s1) then handleInfiniteLoop s1 else s1)"

definition restoreTransition :: "slider \<Rightarrow> slider" where
  "restoreTransition s =
     s\<lparr>trackTransition := TransitionTransform (speed (options s)) (easing (options s))\<rparr>"

text \<open>
  The \<open>k\<close>-th pending time-out fires: it leaves the pending list and its callback runs.
  Nothing happens when there is no such time-out.
\<close>

definition fire :: "nat \<Rightarrow> slider \<Rightarrow> slider" where
  "fire k s =
     (if k < length (timers s) then
        let s1 = s\<lparr>timers := take k (timers s) @ drop (Suc k) (timers s)\<rparr>
        in (case timers s ! k of
              TransitionEnd \<Rightarrow> transitionEnd s1
            | RestoreTransition \<Rightarrow> restoreTransition s1)
      else s)"

text \<open>
  The drag handlers; \<open>x\<close> is the \<open>pageX\<close> of the mouse event or of its first touch.
\<close>

definition handleStart :: "int \<Rightarrow> slider \<Rightarrow> slider" where
  "handleStart x s = s\<lparr>isDragging := True, startX := x, trackCursor := ''grabbing''\<rparr>"

definition handleMove :: "int \<Rightarrow> slider \<Rightarrow> slider" where
  "handleMove x s =
     (if \<not> isDragging s then s
      else
        let s1 = s\<lparr>currentX := x\<rparr>;
            diff = currentX s1 - startX s1
        in s1\<lparr>trackTransform := diff\<rparr>)"

definition handleEnd :: "slider \<Rightarrow> slider" where
  "handleEnd s =
     (if \<not> isDragging s then s
      else
        let s1 = s\<lparr>isDragging := False, trackCursor := ''grab''\<rparr>;
            diff = currentX s1 - startX s1
        in if \<bar>diff\<bar> > swipeThreshold (options s1)
           then (if diff > 0 then prev s1 else next s1)
           else goToSlide (currentSlide s1) s1)"

text \<open>\<open>handleResize\<close>; \<open>windowWidth\<close> is \<open>window.innerWidth\<close>.\<close>

definition apply_breakpoint :: "int \<Rightarrow> slider_options \<Rightarrow> breakpoint_rule \<Rightarrow> slider_options" where
  "apply_breakpoint windowWidth opt bp =
     (if windowWidth \<le> breakpoint bp then assign opt (settings bp) else opt)"

definition handleResize :: "int \<Rightarrow> slider \<Rightarrow> slider" where
  "handleResize windowWidth s =
     (let s1 = s\<lparr>options :=
                  foldl (apply_breakpoint windowWidth) (options s) (responsive (options s))\<rparr>
      in goToSlide (currentSlide s1) s1)"

text \<open>
  The constructor followed by \<open>init\<close>, for an element that exists and has \<open>n\<close> slides of
  width \<open>w\<close>. Cloning the boundary slides for infinite mode adds nodes to the track and
  leaves \<open>slides\<close> and \<open>totalSlides\<close> as they are.
\<close>

definition createControls :: "slider \<Rightarrow> slider" where
  "createControls s =
     (if dots (options s) then s\<lparr>dotActive := Some (replicate (length (slideActive s)) False)\<rparr>
      else s)"

text \<open>
  Of \<open>setupEvents\<close> the model keeps the registration of the drag handlers. The keyboard
  listener calls \<open>prev\<close> and \<open>next\<close>, which are public in any case.
\<close>

definition setupEvents :: "slider \<Rightarrow> slider" where
  "setupEvents s = (if draggable (options s) then s\<lparr>dragInstalled := True\<rparr> else s)"

definition new_slider :: "constructor_options \<Rightarrow> nat \<Rightarrow> int \<Rightarrow> slider" where
  "new_slider c n w =
     (let s = \<lparr>currentSlide = 0, totalSlides = int n, isAnimating = False,
                options = merge_options c, slideWidth = w, trackTransform = 0,
                trackTransition = TransitionUnset, trackCursor = [],
                slideActive = replicate n False, dotActive = None, events = [], timers = [],
                startX = 0, currentX = 0, isDragging = False, dragInstalled = False\<rparr>
      in if n = 0 then s else goToSlide 0 (setupEvents (createControls s)))"

section \<open>Slider: sequences of operations\<close>

text \<open>
  What can happen to a slider: the calls \<open>next\<close>, \<open>prev\<close> and \<open>goToSlide\<close> (from the arrows,
  the keyboard, the dots, or a tick of the autoplay interval, which calls \<open>next\<close>), the three
  drag events, and a pending time-out firing. A drag event reaches its handler only when
  the handlers have been registered.
\<close>

datatype operation =
    Next | Prev | GoTo int
  | DragStart int | DragMove int | DragEnd
  | Fire nat

fun step :: "slider \<Rightarrow> operation \<Rightarrow> slider" where
  "step s Next = next s"
| "step s Prev = prev s"
| "step s (GoTo i) = goToSlide i s"
| "step s (DragStart x) = (if dragInstalled s then handleStart x s else s)"
| "step s (DragMove x) = (if dragInstalled s then handleMove x s else s)"
| "step s DragEnd = (if dragInstalled s then handleEnd s else s)"
| "step s (Fire k) = fire k s"

definition run :: "slider \<Rightarrow> operation list \<Rightarrow> slider" where
  "run s ops = foldl step s ops"

text \<open>An index handed to \<open>goToSlide\<close> is in range when it is the index of a slide.\<close>

fun in_range :: "int \<Rightarrow> operation \<Rightarrow> bool" where
  "in_range n (GoTo i) = (0 \<le> i \<and> i < n)"
| "in_range n _ = True"

text \<open>The index is that of a slide.\<close>

definition bounded :: "slider \<Rightarrow> bool" where
  "bounded s = (0 \<le> currentSlide s \<and> currentSlide s < totalSlides s)"

section \<open>The resize rule in the words of the specification\<close>

text \<open>
  The first rule, in ascending order of threshold, whose threshold the window width does
  not exceed, and the options it alone overrides.
\<close>

definition spec_first_match :: "int \<Rightarrow> breakpoint_rule list \<Rightarrow> breakpoint_rule option" where
  "spec_first_match windowWidth rules =
     find (\<lambda>bp. windowWidth \<le> breakpoint bp) (sort_key breakpoint rules)"

definition spec_resize_options :: "int \<Rightarrow> slider_options \<Rightarrow> slider_options" where
  "spec_resize_options windowWidth opt =
     (case spec_first_match windowWidth (responsive opt) of
        None \<Rightarrow> opt
      | Some bp \<Rightarrow> assign opt (settings bp))"

section \<open>Utils: local storage\<close>

text \<open>
  \<open>localStorage.getItem\<close>, \<open>localStorage.setItem\<close>, \<open>JSON.parse\<close> and \<open>JSON.stringify\<close>
  belong to the browser, and each of them may throw. They are parameters of the model: a
  result is \<open>Inl\<close> of the exception thrown or \<open>Inr\<close> of the value returned. \<open>getItem\<close> returns
  \<open>None\<close> (\<open>null\<close>) for a key that is not stored; \<open>setItem\<close> returns the storage after the
  write. \<open>'st\<close> is the content of the storage and \<open>'v\<close> the type of the values stored.
\<close>

datatype js_error = SecurityError | QuotaExceededError | SyntaxError | TypeError

record ('st, 'v) host =
  getItem :: "'st \<Rightarrow> string \<Rightarrow> js_error + string option"
  setItem :: "'st \<Rightarrow> string \<Rightarrow> string \<Rightarrow> js_error + 'st"
  JSON_parse :: "string \<Rightarrow> js_error + 'v"
  JSON_stringify :: "'v \<Rightarrow> js_error + string"

text \<open>What the two functions read and write: the storage and the console.\<close>

record 'st page =
  localStorage :: 'st
  console :: "(string \<times> js_error) list"

text \<open>
  A statement of the source is a function from the page to a result and the page after it;
  the result \<open>Inl e\<close> is the exception \<open>e\<close> leaving the statement.
\<close>

type_synonym ('st, 'a) statement = "'st page \<Rightarrow> (js_error + 'a) \<times> 'st page"

definition try_catch ::
  "('st, 'a) statement \<Rightarrow> (js_error \<Rightarrow> ('st, 'a) statement) \<Rightarrow> ('st, 'a) statement" where
  "try_catch body handler pg =
     (case body pg of
        (Inl e, pg') \<Rightarrow> handler e pg'
      | (Inr v, pg') \<Rightarrow> (Inr v, pg'))"

definition console_error :: "string \<Rightarrow> js_error \<Rightarrow> 'st page \<Rightarrow> 'st page" where
  "console_error msg e pg = pg\<lparr>console := console pg @ [(msg, e)]\<rparr>"

text \<open>\<open>getStorage\<close> returns \<open>None\<close> for \<open>null\<close>. An empty item is falsy, so it is not parsed.\<close>

definition getStorage :: "('st, 'v) host \<Rightarrow> string \<Rightarrow> ('st, 'v option) statement" where
  "getStorage h key =
     try_catch
       (\<lambda>pg. case getItem h (localStorage pg) key of
                Inl e \<Rightarrow> (Inl e, pg)
              | Inr item \<Rightarrow>
                  (case item of
                     None \<Rightarrow> (Inr None, pg)
                   | Some i \<Rightarrow>
                       if i = [] then (Inr None, pg)
                       else (case JSON_parse h i of
                               Inl e \<Rightarrow> (Inl e, pg)
                             | Inr v \<Rightarrow> (Inr (Some v), pg))))
       (\<lambda>error pg. (Inr None, console_error ''Error getting storage:'' error pg))"

definition setStorage :: "('st, 'v) host \<Rightarrow> string \<Rightarrow> 'v \<Rightarrow> ('st, unit) statement" where
  "setStorage h key val =
     try_catch
       (\<lambda>pg. case JSON_stringify h val of
                Inl e \<Rightarrow> (Inl e, pg)
              | Inr str \<Rightarrow>
                  (case setItem h (localStorage pg) key str of
                     Inl e \<Rightarrow> (Inl e, pg)
                   | Inr st \<Rightarrow> (Inr (), pg\<lparr>localStorage := st\<rparr>)))
       (\<lambda>error pg. (Inr (), console_error ''Error setting storage:'' error pg))"

text \<open>
  Two hosts to run the functions on: a storage kept as a list of pairs, newest first, with
  values that are strings stored as they are; and the same storage with access denied.
\<close>

definition plain_host :: "((string \<times> string) list, string) host" where
  "plain_host =
     \<lparr>getItem = (\<lambda>st k. Inr (map_of st k)),
      setItem = (\<lambda>st k v. Inr ((k, v) # st)),
      JSON_parse = Inr,
      JSON_stringify = Inr\<rparr>"

definition denied_host :: "((string \<times> string) list, string) host" where
  "denied_host =
     plain_host\<lparr>getItem := (\<lambda>st k. Inl SecurityError),
                setItem := (\<lambda>st k v. Inl QuotaExceededError)\<rparr>"

section \<open>Properties of the validators\<close>

lemma plus_rests_Nil_iff:
  "[] \<in> set (plus_rests a s) \<longleftrightarrow> s \<noteq> [] \<and> (\<forall>c \<in> set s. atom_ok a c)"
  by (induction s) auto

lemma test_phoneRegex: "test phoneRegex s \<longleftrightarrow> s \<noteq> [] \<and> (\<forall>c \<in> set s. phoneChar c)"
  by (simp add: phoneRegex_def list_ex_iff plus_rests_Nil_iff)

lemma digits_eq: "replace_all_empty isNonDigit s = filter isDigit s"
  by (simp add: replace_all_empty_def isNonDigit_def)

lemma isSpace_not_digit: "isSpace c \<Longrightarrow> \<not> isDigit c"
  by (auto simp: isSpace_def isDigit_def)

lemma filter_dropWhile_disjoint:
  "(\<And>c. q c \<Longrightarrow> \<not> p c) \<Longrightarrow> filter p (dropWhile q s) = filter p s"
  by (induction s) auto

text \<open>Trimming removes white space only, so it keeps every digit.\<close>

lemma digits_trim: "filter isDigit (trim s) = filter isDigit s"
proof -
  have "filter isDigit (trim s) =
        rev (filter isDigit (dropWhile isSpace (rev (dropWhile isSpace s))))"
    by (simp add: trim_def rev_filter)
  also have "\<dots> = rev (filter isDigit (rev (dropWhile isSpace s)))"
    by (simp add: filter_dropWhile_disjoint isSpace_not_digit)
  also have "\<dots> = filter isDigit (dropWhile isSpace s)"
    by (simp add: rev_filter)
  also have "\<dots> = filter isDigit s"
    by (simp add: filter_dropWhile_disjoint isSpace_not_digit)
  finally show ?thesis .
qed

lemma digits_nonempty: "0 < length (filter isDigit v) \<Longrightarrow> trim v \<noteq> []"
  using digits_trim[of v] by auto

lemma isValidPhone_iff:
  "isValidPhone s \<longleftrightarrow> (\<forall>c \<in> set s. phoneChar c) \<and> 10 \<le> length (filter isDigit s)"
  by (auto simp: isValidPhone_def test_phoneRegex digits_eq)

lemma validateField_phone:
  assumes "fieldName f = ''phone''" "fieldType f \<noteq> ''hidden''"
  shows "fst (validateField f) \<longleftrightarrow>
         (if trim (fieldValue f) = [] then \<not> fieldRequired f
          else 10 \<le> length (filter isDigit (fieldValue f)))"
  using assms by (auto simp: validateField_def Let_def digits_eq digits_trim)

lemma validateField_hidden: "fieldType f = ''hidden'' \<Longrightarrow> fst (validateField f)"
  by (simp add: validateField_def)

lemma validateField_phone_enough_digits:
  assumes "fieldName f = ''phone''" "10 \<le> length (filter isDigit (fieldValue f))"
  shows "fst (validateField f)"
proof (cases "fieldType f = ''hidden''")
  case True
  then show ?thesis by (rule validateField_hidden)
next
  case False
  from assms(2) have "0 < length (filter isDigit (fieldValue f))"
    by linarith
  then have "trim (fieldValue f) \<noteq> []"
    by (rule digits_nonempty)
  with assms False show ?thesis by (simp add: validateField_phone)
qed

text \<open>
  Claim C7. The email validator accepts \<open>user@example.com\<close> and rejects \<open>user@example\<close> and
  \<open>user.example.com\<close>. This holds of \<open>Utils.isValidEmail\<close> and of the email check of
  \<open>ContactForm.validateField\<close>, which tests the same pattern on a field named \<open>email\<close>.
\<close>

theorem email_validator_examples:
  "isValidEmail ''user@example.com'' \<and>
   \<not> isValidEmail ''user@example'' \<and>
   \<not> isValidEmail ''user.example.com'' \<and>
   validateField \<lparr>fieldValue = ''user@example.com'', fieldName = ''email'',
       fieldType = ''email'', fieldRequired = True\<rparr> = (True, []) \<and>
   validateField \<lparr>fieldValue = ''user@example'', fieldName = ''email'',
       fieldType = ''email'', fieldRequired = True\<rparr>
     = (False, ''Please enter a valid email address'') \<and>
   validateField \<lparr>fieldValue = ''user.example.com'', fieldName = ''email'',
       fieldType = ''email'', fieldRequired = True\<rparr>
     = (False, ''Please enter a valid email address'')"
proof (intro conjI)
  show "isValidEmail ''user@example.com''"
    by (simp add: isValidEmail_def emailRegex_def notSpaceAt_def isSpace_def)
  show "\<not> isValidEmail ''user@example''"
    by (simp add: isValidEmail_def emailRegex_def notSpaceAt_def isSpace_def)
  show "\<not> isValidEmail ''user.example.com''"
    by (simp add: isValidEmail_def emailRegex_def notSpaceAt_def isSpace_def)
  show "validateField \<lparr>fieldValue = ''user@example.com'', fieldName = ''email'',
       fieldType = ''email'', fieldRequired = True\<rparr> = (True, [])"
    by (simp add: validateField_def trim_def emailRegex_def notSpaceAt_def isSpace_def)
  show "validateField \<lparr>fieldValue = ''user@example'', fieldName = ''email'',
       fieldType = ''email'', fieldRequired = True\<rparr>
     = (False, ''Please enter a valid email address'')"
    by (simp add: validateField_def trim_def emailRegex_def notSpaceAt_def isSpace_def)
  show "validateField \<lparr>fieldValue = ''user.example.com'', fieldName = ''email'',
       fieldType = ''email'', fieldRequired = True\<rparr>
     = (False, ''Please enter a valid email address'')"
    by (simp add: validateField_def trim_def emailRegex_def notSpaceAt_def isSpace_def)
qed

text \<open>
  Claim C8, as the code has it. Both phone validators reject every string with exactly nine
  digits (\<open>validateField\<close> on a field named \<open>phone\<close> that it validates: a hidden field is
  skipped). The phone check of \<open>ContactForm.validateField\<close> accepts every string with
  exactly ten digits whatever its other characters. \<open>Utils.isValidPhone\<close> accepts a string
  with exactly ten digits when its other characters are among the separators of its
  pattern: white space, \<open>-\<close>, \<open>+\<close>, \<open>(\<close> and \<open>)\<close>. \<open>123-456-7890\<close> is valid and \<open>12345678\<close>
  is not, for both.
\<close>

theorem phone_validator_digit_count:
  "(length (filter isDigit s) = 9 \<longrightarrow> \<not> isValidPhone s) \<and>
   (length (filter isDigit s) = 10 \<and> (\<forall>c \<in> set s. phoneChar c) \<longrightarrow> isValidPhone s) \<and>
   (fieldName f = ''phone'' \<and> fieldType f \<noteq> ''hidden''
      \<and> length (filter isDigit (fieldValue f)) = 9 \<longrightarrow> \<not> fst (validateField f)) \<and>
   (fieldName f = ''phone'' \<and> length (filter isDigit (fieldValue f)) = 10
      \<longrightarrow> fst (validateField f)) \<and>
   isValidPhone ''123-456-7890'' \<and> \<not> isValidPhone ''12345678'' \<and>
   fst (validateField \<lparr>fieldValue = ''123-456-7890'', fieldName = ''phone'',
          fieldType = ''tel'', fieldRequired = True\<rparr>) \<and>
   \<not> fst (validateField \<lparr>fieldValue = ''12345678'', fieldName = ''phone'',
          fieldType = ''tel'', fieldRequired = True\<rparr>)"
proof (intro conjI impI)
  assume "length (filter isDigit s) = 9"
  then show "\<not> isValidPhone s" by (simp add: isValidPhone_iff)
next
  assume "length (filter isDigit s) = 10 \<and> (\<forall>c \<in> set s. phoneChar c)"
  then show "isValidPhone s" by (simp add: isValidPhone_iff)
next
  assume a: "fieldName f = ''phone'' \<and> fieldType f \<noteq> ''hidden''
      \<and> length (filter isDigit (fieldValue f)) = 9"
  then have "trim (fieldValue f) \<noteq> []"
    using digits_nonempty[of "fieldValue f"] by simp
  with a show "\<not> fst (validateField f)" by (simp add: validateField_phone)
next
  assume "fieldName f = ''phone'' \<and> length (filter isDigit (fieldValue f)) = 10"
  then show "fst (validateField f)" by (simp add: validateField_phone_enough_digits)
next
  show "isValidPhone ''123-456-7890''"
    by (simp add: isValidPhone_iff phoneChar_def isDigit_def)
  show "\<not> isValidPhone ''12345678''"
    by (simp add: isValidPhone_iff phoneChar_def isDigit_def)
  show "fst (validateField \<lparr>fieldValue = ''123-456-7890'', fieldName = ''phone'',
          fieldType = ''tel'', fieldRequired = True\<rparr>)"
    by (simp add: validateField_phone isDigit_def trim_def isSpace_def)
  show "\<not> fst (validateField \<lparr>fieldValue = ''12345678'', fieldName = ''phone'',
          fieldType = ''tel'', fieldRequired = True\<rparr>)"
    by (simp add: validateField_phone isDigit_def trim_def isSpace_def)
qed

theorem phone_validator_digit_count_witness:
  "length (filter isDigit ''(123) 456 789'') = 9 \<and> \<not> isValidPhone ''(123) 456 789'' \<and>
   length (filter isDigit ''+1 (234) 567-890'') = 10 \<and>
   list_all phoneChar ''+1 (234) 567-890'' \<and> isValidPhone ''+1 (234) 567-890'' \<and>
   \<not> fst (validateField \<lparr>fieldValue = ''123.456.789'', fieldName = ''phone'',
          fieldType = ''tel'', fieldRequired = False\<rparr>) \<and>
   fst (validateField \<lparr>fieldValue = ''123.456.7890'', fieldName = ''phone'',
          fieldType = ''tel'', fieldRequired = False\<rparr>)"
  using phone_validator_digit_count [of "''(123) 456 789''"
      "\<lparr>fieldValue = ''123.456.789'', fieldName = ''phone'', fieldType = ''tel'',
        fieldRequired = False\<rparr>"]
    phone_validator_digit_count [of "''+1 (234) 567-890''"
      "\<lparr>fieldValue = ''123.456.7890'', fieldName = ''phone'', fieldType = ''tel'',
        fieldRequired = False\<rparr>"]
  by (simp add: isDigit_def phoneChar_def isSpace_def)

text \<open>
  The counterexample to the claim as stated: \<open>123.456.7890\<close> has ten digits, separated by
  dots, and \<open>Utils.isValidPhone\<close> rejects it, while \<open>validateField\<close> accepts it.
\<close>

theorem phone_validator_separator_counterexample:
  "length (filter isDigit ''123.456.7890'') = 10 \<and>
   \<not> isValidPhone ''123.456.7890'' \<and>
   \<not> phoneChar CHR ''.'' \<and>
   fst (validateField \<lparr>fieldValue = ''123.456.7890'', fieldName = ''phone'',
          fieldType = ''tel'', fieldRequired = True\<rparr>)"
  by (simp add: isValidPhone_iff validateField_phone phoneChar_def isDigit_def isSpace_def
      trim_def)

text \<open>
  Claim C10. The two phone validators of the repository differ. On a field named \<open>phone\<close>,
  \<open>ContactForm.validateField\<close> accepts every value with at least ten digits, whatever the
  other characters; \<open>Utils.isValidPhone\<close> accepts exactly the strings with at least ten
  digits in which every character is a digit, white space, \<open>-\<close>, \<open>+\<close>, \<open>(\<close> or \<open>)\<close>. The
  string \<open>1234567890a\<close> is accepted by the former and rejected by the latter.
\<close>

theorem phone_validators_differ:
  "(fieldName f = ''phone'' \<and> 10 \<le> length (filter isDigit (fieldValue f))
      \<longrightarrow> fst (validateField f)) \<and>
   (isValidPhone s \<longleftrightarrow>
      10 \<le> length (filter isDigit s) \<and>
      (\<forall>c \<in> set s. isDigit c \<or> isSpace c \<or> c \<in> {CHR ''-'', CHR ''+'', CHR ''('', CHR '')''})) \<and>
   fst (validateField \<lparr>fieldValue = ''1234567890a'', fieldName = ''phone'',
          fieldType = ''tel'', fieldRequired = True\<rparr>) \<and>
   \<not> isValidPhone ''1234567890a''"
proof (intro conjI impI)
  assume "fieldName f = ''phone'' \<and> 10 \<le> length (filter isDigit (fieldValue f))"
  then show "fst (validateField f)" by (simp add: validateField_phone_enough_digits)
next
  show "isValidPhone s \<longleftrightarrow>
      10 \<le> length (filter isDigit s) \<and>
      (\<forall>c \<in> set s. isDigit c \<or> isSpace c \<or> c \<in> {CHR ''-'', CHR ''+'', CHR ''('', CHR '')''})"
    by (auto simp: isValidPhone_iff phoneChar_def)
next
  show "fst (validateField \<lparr>fieldValue = ''1234567890a'', fieldName = ''phone'',
          fieldType = ''tel'', fieldRequired = True\<rparr>)"
    by (simp add: validateField_phone isDigit_def trim_def isSpace_def)
  show "\<not> isValidPhone ''1234567890a''"
    by (simp add: isValidPhone_iff phoneChar_def isDigit_def isSpace_def)
qed

theorem phone_validators_differ_witness:
  "fieldName \<lparr>fieldValue = ''12345 67890 ext. 12'', fieldName = ''phone'',
        fieldType = ''tel'', fieldRequired = False\<rparr> = ''phone'' \<and>
   10 \<le> length (filter isDigit ''12345 67890 ext. 12'') \<and>
   fst (validateField \<lparr>fieldValue = ''12345 67890 ext. 12'', fieldName = ''phone'',
        fieldType = ''tel'', fieldRequired = False\<rparr>) \<and>
   \<not> isValidPhone ''12345 67890 ext. 12''"
  using phone_validators_differ [of
      "\<lparr>fieldValue = ''12345 67890 ext. 12'', fieldName = ''phone'', fieldType = ''tel'',
        fieldRequired = False\<rparr>" "''12345 67890 ext. 12''"]
  by (simp add: isDigit_def isSpace_def)

section \<open>Properties of the slider\<close>

lemmas slider_eval =
  new_slider_def merge_options_def assign_def override_def default_options_def no_options_def
  no_settings_def createControls_def setupEvents_def goToSlide_def updateActiveStates_def active_marks_def
  dispatchEvent_def setTimeout_def next_def prev_def next_target_def prev_target_def
  handleInfiniteLoop_def transitionEnd_def restoreTransition_def fire_def handleStart_def
  handleMove_def handleEnd_def handleResize_def apply_breakpoint_def run_def Let_def

subsection \<open>What \<open>goToSlide\<close> changes\<close>

lemma goToSlide_locked_eq: "isAnimating s \<Longrightarrow> goToSlide i s = s"
  by (simp add: goToSlide_def)

lemma goToSlide_currentSlide:
  "currentSlide (goToSlide i s) = (if isAnimating s then currentSlide s else i)"
  by (simp add: goToSlide_def Let_def updateActiveStates_def dispatchEvent_def setTimeout_def)

lemma goToSlide_frame:
  "options (goToSlide i s) = options s"
  "totalSlides (goToSlide i s) = totalSlides s"
  "slideWidth (goToSlide i s) = slideWidth s"
  "startX (goToSlide i s) = startX s"
  "currentX (goToSlide i s) = currentX s"
  "isDragging (goToSlide i s) = isDragging s"
  "dragInstalled (goToSlide i s) = dragInstalled s"
  by (simp_all add: goToSlide_def Let_def updateActiveStates_def dispatchEvent_def
      setTimeout_def)

lemma goToSlide_unlocked:
  "\<not> isAnimating s \<Longrightarrow> isAnimating (goToSlide i s)"
  "\<not> isAnimating s \<Longrightarrow> trackTransform (goToSlide i s) = - i * slideWidth s"
  "\<not> isAnimating s \<Longrightarrow> events (goToSlide i s) = events s @ [(''slideChange'', i)]"
  "\<not> isAnimating s \<Longrightarrow> timers (goToSlide i s) = timers s @ [TransitionEnd]"
  by (simp_all add: goToSlide_def Let_def updateActiveStates_def dispatchEvent_def
      setTimeout_def)

lemma next_frame:
  "options (next s) = options s" "totalSlides (next s) = totalSlides s"
  by (simp_all add: next_def goToSlide_frame)

lemma prev_frame:
  "options (prev s) = options s" "totalSlides (prev s) = totalSlides s"
  by (simp_all add: prev_def goToSlide_frame)

lemma next_currentSlide:
  "currentSlide (next s) = (if isAnimating s then currentSlide s else next_target s)"
  by (simp add: next_def goToSlide_currentSlide)

lemma prev_currentSlide:
  "currentSlide (prev s) = (if isAnimating s then currentSlide s else prev_target s)"
  by (simp add: prev_def goToSlide_currentSlide)

lemma handleInfiniteLoop_frame:
  "options (handleInfiniteLoop s) = options s"
  "totalSlides (handleInfiniteLoop s) = totalSlides s"
  by (simp_all add: handleInfiniteLoop_def setTimeout_def goToSlide_frame)

lemma handleInfiniteLoop_in_range:
  "0 \<le> currentSlide s \<Longrightarrow> currentSlide s < totalSlides s \<Longrightarrow> handleInfiniteLoop s = s"
  by (simp add: handleInfiniteLoop_def)

lemma transitionEnd_frame:
  "options (transitionEnd s) = options s"
  "totalSlides (transitionEnd s) = totalSlides s"
  by (simp_all add: transitionEnd_def Let_def handleInfiniteLoop_frame)

lemma transitionEnd_finite:
  "\<not> infinite_mode (options s) \<Longrightarrow> transitionEnd s = s\<lparr>isAnimating := False\<rparr>"
  by (simp add: transitionEnd_def)

lemma fire_frame:
  "options (fire k s) = options s"
  "totalSlides (fire k s) = totalSlides s"
  by (simp_all add: fire_def Let_def transitionEnd_frame restoreTransition_def
      split: timer.split)

lemma fire_currentSlide_finite:
  "\<not> infinite_mode (options s) \<Longrightarrow> currentSlide (fire k s) = currentSlide s"
  by (simp add: fire_def Let_def transitionEnd_finite restoreTransition_def
      split: timer.split)

lemma fire_last:
  "fire (length ts) (s\<lparr>timers := ts @ [TransitionEnd]\<rparr>) = transitionEnd (s\<lparr>timers := ts\<rparr>)"
  by (simp add: fire_def Let_def)

lemma handleEnd_frame:
  "options (handleEnd s) = options s"
  "totalSlides (handleEnd s) = totalSlides s"
  by (simp_all add: handleEnd_def Let_def next_frame prev_frame goToSlide_frame)

lemma step_frame:
  "options (step s op) = options s"
  "totalSlides (step s op) = totalSlides s"
  by (cases op; simp add: next_frame prev_frame goToSlide_frame fire_frame handleEnd_frame
        handleStart_def handleMove_def Let_def)+

subsection \<open>The index stays in range without infinite mode\<close>

lemma next_target_bounded:
  assumes "\<not> infinite_mode (options s)" "0 \<le> slidesToScroll (options s)" "bounded s"
  shows "0 \<le> next_target s \<and> next_target s < totalSlides s"
  using assms by (auto simp: bounded_def next_target_def Let_def)

lemma prev_target_bounded:
  assumes "\<not> infinite_mode (options s)" "0 \<le> slidesToScroll (options s)" "bounded s"
  shows "0 \<le> prev_target s \<and> prev_target s < totalSlides s"
  using assms by (auto simp: bounded_def prev_target_def Let_def)

lemma handleEnd_bounded:
  assumes "\<not> infinite_mode (options s)" "0 \<le> slidesToScroll (options s)" "bounded s"
  shows "bounded (handleEnd s)"
proof -
  let ?s1 = "s\<lparr>isDragging := False, trackCursor := ''grab''\<rparr>"
  have b1: "bounded ?s1" using assms(3) by (simp add: bounded_def)
  have n: "0 \<le> next_target ?s1 \<and> next_target ?s1 < totalSlides ?s1"
    using assms b1 by (intro next_target_bounded) simp_all
  have p: "0 \<le> prev_target ?s1 \<and> prev_target ?s1 < totalSlides ?s1"
    using assms b1 by (intro prev_target_bounded) simp_all
  show ?thesis
    using assms(3) n p
    by (simp add: handleEnd_def Let_def bounded_def next_currentSlide prev_currentSlide
        goToSlide_currentSlide next_frame prev_frame goToSlide_frame)
qed

lemma step_bounded:
  assumes "\<not> infinite_mode (options s)" "0 \<le> slidesToScroll (options s)" "bounded s"
    "in_range (totalSlides s) op"
  shows "bounded (step s op)"
proof (cases op)
  case Next
  then show ?thesis using next_target_bounded[OF assms(1-3)] assms(3)
    by (simp add: bounded_def next_currentSlide next_frame)
next
  case Prev
  then show ?thesis using prev_target_bounded[OF assms(1-3)] assms(3)
    by (simp add: bounded_def prev_currentSlide prev_frame)
next
  case (GoTo i)
  then show ?thesis using assms(3,4)
    by (simp add: bounded_def goToSlide_currentSlide goToSlide_frame)
next
  case (DragStart x)
  then show ?thesis using assms(3) by (simp add: bounded_def handleStart_def)
next
  case (DragMove x)
  then show ?thesis using assms(3) by (simp add: bounded_def handleMove_def Let_def)
next
  case DragEnd
  then show ?thesis using handleEnd_bounded[OF assms(1-3)] assms(3) by simp
next
  case (Fire k)
  then show ?thesis using assms(1,3)
    by (simp add: bounded_def fire_currentSlide_finite fire_frame)
qed

lemma run_bounded:
  assumes "\<not> infinite_mode (options s)" "0 \<le> slidesToScroll (options s)" "bounded s"
    "list_all (in_range (totalSlides s)) ops"
  shows "bounded (run s ops) \<and> options (run s ops) = options s
         \<and> totalSlides (run s ops) = totalSlides s"
  using assms
proof (induction ops arbitrary: s)
  case Nil
  then show ?case by (simp add: run_def)
next
  case (Cons op ops)
  have b: "bounded (step s op)"
    using Cons.prems by (intro step_bounded) simp_all
  have "bounded (run (step s op) ops) \<and> options (run (step s op) ops) = options (step s op)
         \<and> totalSlides (run (step s op) ops) = totalSlides (step s op)"
    using Cons.prems b by (intro Cons.IH) (simp_all add: step_frame)
  then show ?case by (simp add: run_def step_frame)
qed

text \<open>
  Claim C1. With infinite mode disabled, take any sequence of \<open>next\<close>, \<open>prev\<close>, drag events
  (start, move, release), \<open>goToSlide\<close> with the index of a slide, and time-outs firing in any
  order, and run it from a state with \<open>currentSlide = 0\<close> and at least one slide. After each
  operation of the sequence (after its first \<open>k\<close> operations, for every \<open>k\<close>) \<open>currentSlide\<close>
  is the index of a slide. \<open>slidesToScroll\<close> is a count of slides: it is not negative.
\<close>

theorem index_stays_in_range:
  assumes "\<not> infinite_mode (options s)" and "0 \<le> slidesToScroll (options s)"
    and "0 < totalSlides s" and "currentSlide s = 0"
    and "list_all (in_range (totalSlides s)) ops"
  shows "0 \<le> currentSlide (run s (take k ops))
         \<and> currentSlide (run s (take k ops)) < totalSlides s"
proof -
  have b: "bounded s" using assms(3,4) by (simp add: bounded_def)
  have "set (take k ops) \<subseteq> set ops" by (rule set_take_subset)
  with assms(5) have "list_all (in_range (totalSlides s)) (take k ops)"
    by (auto simp: list_all_iff)
  from run_bounded[OF assms(1,2) b this] show ?thesis
    by (simp add: bounded_def)
qed

text \<open>
  The witness: a slider of three slides made with \<open>{infinite: false}\<close>. The sequence ends each
  transition before the next call, steps forward three times (the third is clamped), steps
  back, goes to the last slide and ends with a drag of 190 pixels to the right.
\<close>

theorem index_stays_in_range_witness:
  "\<not> infinite_mode (options (new_slider (no_options\<lparr>set_infinite := Some False\<rparr>) 3 100)) \<and>
   0 \<le> slidesToScroll (options (new_slider (no_options\<lparr>set_infinite := Some False\<rparr>) 3 100)) \<and>
   0 < totalSlides (new_slider (no_options\<lparr>set_infinite := Some False\<rparr>) 3 100) \<and>
   currentSlide (new_slider (no_options\<lparr>set_infinite := Some False\<rparr>) 3 100) = 0 \<and>
   list_all (in_range (totalSlides (new_slider (no_options\<lparr>set_infinite := Some False\<rparr>) 3 100)))
     [Fire 0, Next, Fire 0, Next, Fire 0, Next, Fire 0, Prev, Fire 0, GoTo 2, Fire 0,
      DragStart 10, DragMove 200, DragEnd] \<and>
   0 \<le> currentSlide (run (new_slider (no_options\<lparr>set_infinite := Some False\<rparr>) 3 100)
     (take 14 [Fire 0, Next, Fire 0, Next, Fire 0, Next, Fire 0, Prev, Fire 0, GoTo 2, Fire 0,
      DragStart 10, DragMove 200, DragEnd])) \<and>
   currentSlide (run (new_slider (no_options\<lparr>set_infinite := Some False\<rparr>) 3 100)
     (take 14 [Fire 0, Next, Fire 0, Next, Fire 0, Next, Fire 0, Prev, Fire 0, GoTo 2, Fire 0,
      DragStart 10, DragMove 200, DragEnd]))
     < totalSlides (new_slider (no_options\<lparr>set_infinite := Some False\<rparr>) 3 100) \<and>
   currentSlide (run (new_slider (no_options\<lparr>set_infinite := Some False\<rparr>) 3 100)
     [Fire 0, Next, Fire 0, Next, Fire 0, Next]) = 2 \<and>
   currentSlide (run (new_slider (no_options\<lparr>set_infinite := Some False\<rparr>) 3 100)
     [Fire 0, Next, Fire 0, Next, Fire 0, Next, Fire 0, Prev, Fire 0, GoTo 2, Fire 0,
      DragStart 10, DragMove 200, DragEnd]) = 1"
proof -
  let ?s = "new_slider (no_options\<lparr>set_infinite := Some False\<rparr>) 3 100"
  let ?ops = "[Fire 0, Next, Fire 0, Next, Fire 0, Next, Fire 0, Prev, Fire 0, GoTo 2, Fire 0,
      DragStart 10, DragMove 200, DragEnd]"
  have h1: "\<not> infinite_mode (options ?s)" by (simp add: slider_eval)
  have h2: "0 \<le> slidesToScroll (options ?s)" by (simp add: slider_eval)
  have h3: "0 < totalSlides ?s" by (simp add: slider_eval)
  have h4: "currentSlide ?s = 0" by (simp add: slider_eval)
  have h5: "list_all (in_range (totalSlides ?s)) ?ops" by (simp add: slider_eval)
  have v1: "currentSlide (run ?s [Fire 0, Next, Fire 0, Next, Fire 0, Next]) = 2"
    by (simp add: slider_eval)
  have v2: "currentSlide (run ?s ?ops) = 1"
    by (simp add: slider_eval)
  note r = index_stays_in_range[OF h1 h2 h3 h4 h5, of 14]
  show ?thesis
    by (intro conjI h1 h2 h3 h4 h5 conjunct1[OF r] conjunct2[OF r] v1 v2)
qed

subsection \<open>Targets of \<open>next\<close> and \<open>prev\<close>\<close>

text \<open>
  Claim C3, as the code has it. With infinite mode enabled, \<open>next\<close> targets the first slide
  whenever \<open>currentSlide + slidesToScroll\<close> is at or past \<open>totalSlides\<close>, and \<open>prev\<close> targets the
  last slide whenever \<open>currentSlide - slidesToScroll\<close> is below 0. With infinite mode disabled
  the target is clamped to the last and to the first slide, so \<open>next\<close> at the last slide and
  \<open>prev\<close> at the first leave \<open>currentSlide\<close> as it is, for every \<open>slidesToScroll\<close> that is not
  negative, 1 and greater included. Inside the bounds the target is
  \<open>currentSlide + slidesToScroll\<close> for \<open>next\<close> and \<open>currentSlide - slidesToScroll\<close> for \<open>prev\<close> in
  both modes. A call does nothing at all only while a transition is in flight. With none in
  flight the target becomes \<open>currentSlide\<close> and \<open>goToSlide\<close> runs, also when the target is the
  index the slider is at: the lock is taken, a time-out is set and \<open>slideChange\<close> is
  dispatched with the target.
\<close>

theorem next_prev_targets:
  "(infinite_mode (options s) \<and> currentSlide s + slidesToScroll (options s) \<ge> totalSlides s
      \<longrightarrow> next_target s = 0) \<and>
   (infinite_mode (options s) \<and> currentSlide s - slidesToScroll (options s) < 0
      \<longrightarrow> prev_target s = totalSlides s - 1) \<and>
   (\<not> infinite_mode (options s)
      \<longrightarrow> next_target s = min (currentSlide s + slidesToScroll (options s)) (totalSlides s - 1)
        \<and> prev_target s = max (currentSlide s - slidesToScroll (options s)) 0) \<and>
   (currentSlide s + slidesToScroll (options s) < totalSlides s
      \<longrightarrow> next_target s = currentSlide s + slidesToScroll (options s)) \<and>
   (0 \<le> currentSlide s - slidesToScroll (options s)
      \<longrightarrow> prev_target s = currentSlide s - slidesToScroll (options s)) \<and>
   (\<not> isAnimating s
      \<longrightarrow> currentSlide (next s) = next_target s \<and> currentSlide (prev s) = prev_target s) \<and>
   (\<not> infinite_mode (options s) \<and> 0 \<le> slidesToScroll (options s)
        \<and> currentSlide s = totalSlides s - 1
      \<longrightarrow> currentSlide (next s) = currentSlide s) \<and>
   (\<not> infinite_mode (options s) \<and> 0 \<le> slidesToScroll (options s) \<and> currentSlide s = 0
      \<longrightarrow> currentSlide (prev s) = currentSlide s) \<and>
   (isAnimating s \<longrightarrow> next s = s \<and> prev s = s) \<and>
   (\<not> isAnimating s
      \<longrightarrow> isAnimating (next s) \<and> timers (next s) = timers s @ [TransitionEnd]
        \<and> events (next s) = events s @ [(''slideChange'', next_target s)]
        \<and> isAnimating (prev s) \<and> timers (prev s) = timers s @ [TransitionEnd]
        \<and> events (prev s) = events s @ [(''slideChange'', prev_target s)])"
proof -
  have targets:
    "(infinite_mode (options s) \<and> currentSlide s + slidesToScroll (options s) \<ge> totalSlides s
      \<longrightarrow> next_target s = 0) \<and>
   (infinite_mode (options s) \<and> currentSlide s - slidesToScroll (options s) < 0
      \<longrightarrow> prev_target s = totalSlides s - 1) \<and>
   (\<not> infinite_mode (options s)
      \<longrightarrow> next_target s = min (currentSlide s + slidesToScroll (options s)) (totalSlides s - 1)
        \<and> prev_target s = max (currentSlide s - slidesToScroll (options s)) 0) \<and>
   (currentSlide s + slidesToScroll (options s) < totalSlides s
      \<longrightarrow> next_target s = currentSlide s + slidesToScroll (options s)) \<and>
   (0 \<le> currentSlide s - slidesToScroll (options s)
      \<longrightarrow> prev_target s = currentSlide s - slidesToScroll (options s)) \<and>
   (\<not> isAnimating s
      \<longrightarrow> currentSlide (next s) = next_target s \<and> currentSlide (prev s) = prev_target s) \<and>
   (\<not> infinite_mode (options s) \<and> 0 \<le> slidesToScroll (options s)
        \<and> currentSlide s = totalSlides s - 1
      \<longrightarrow> currentSlide (next s) = currentSlide s) \<and>
   (\<not> infinite_mode (options s) \<and> 0 \<le> slidesToScroll (options s) \<and> currentSlide s = 0
      \<longrightarrow> currentSlide (prev s) = currentSlide s)"
    by (auto simp: next_target_def prev_target_def Let_def next_currentSlide prev_currentSlide)
  have locked: "isAnimating s \<longrightarrow> next s = s \<and> prev s = s"
    by (simp add: next_def prev_def goToSlide_locked_eq)
  have unlocked: "\<not> isAnimating s
      \<longrightarrow> isAnimating (next s) \<and> timers (next s) = timers s @ [TransitionEnd]
        \<and> events (next s) = events s @ [(''slideChange'', next_target s)]
        \<and> isAnimating (prev s) \<and> timers (prev s) = timers s @ [TransitionEnd]
        \<and> events (prev s) = events s @ [(''slideChange'', prev_target s)]"
    by (simp add: next_def prev_def goToSlide_unlocked)
  note t = targets[THEN conjunct1] targets[THEN conjunct2, THEN conjunct1]
    targets[THEN conjunct2, THEN conjunct2, THEN conjunct1]
    targets[THEN conjunct2, THEN conjunct2, THEN conjunct2, THEN conjunct1]
    targets[THEN conjunct2, THEN conjunct2, THEN conjunct2, THEN conjunct2, THEN conjunct1]
    targets[THEN conjunct2, THEN conjunct2, THEN conjunct2, THEN conjunct2, THEN conjunct2,
      THEN conjunct1]
    targets[THEN conjunct2, THEN conjunct2, THEN conjunct2, THEN conjunct2, THEN conjunct2,
      THEN conjunct2, THEN conjunct1]
    targets[THEN conjunct2, THEN conjunct2, THEN conjunct2, THEN conjunct2, THEN conjunct2,
      THEN conjunct2, THEN conjunct2]
  show ?thesis
    by (intro conjI t locked unlocked)
qed

text \<open>
  The witness: a slider of three slides with the default options (infinite mode) at its last
  slide and at its first; one with \<open>{infinite: false, slidesToScroll: 2}\<close> at its last
  slide and at its first, no transition in flight; and a slider just constructed, whose
  first transition is in flight.
\<close>

theorem next_prev_targets_witness:
  "infinite_mode (options (run (new_slider no_options 3 100) [Fire 0, Next, Fire 0, Next, Fire 0])) \<and>
   currentSlide (run (new_slider no_options 3 100) [Fire 0, Next, Fire 0, Next, Fire 0]) = 2 \<and>
   next_target (run (new_slider no_options 3 100) [Fire 0, Next, Fire 0, Next, Fire 0]) = 0 \<and>
   currentSlide (run (new_slider no_options 3 100) [Fire 0]) = 0 \<and>
   prev_target (run (new_slider no_options 3 100) [Fire 0]) = 2 \<and>
   \<not> infinite_mode (options (run (new_slider
        (no_options\<lparr>set_slidesToScroll := Some 2, set_infinite := Some False\<rparr>) 3 100)
        [Fire 0, Next, Fire 0])) \<and>
   \<not> isAnimating (run (new_slider
        (no_options\<lparr>set_slidesToScroll := Some 2, set_infinite := Some False\<rparr>) 3 100)
        [Fire 0, Next, Fire 0]) \<and>
   currentSlide (run (new_slider
        (no_options\<lparr>set_slidesToScroll := Some 2, set_infinite := Some False\<rparr>) 3 100)
        [Fire 0, Next, Fire 0]) = 2 \<and>
   currentSlide (next (run (new_slider
        (no_options\<lparr>set_slidesToScroll := Some 2, set_infinite := Some False\<rparr>) 3 100)
        [Fire 0, Next, Fire 0])) = 2 \<and>
   currentSlide (run (new_slider
        (no_options\<lparr>set_slidesToScroll := Some 2, set_infinite := Some False\<rparr>) 3 100)
        [Fire 0]) = 0 \<and>
   currentSlide (prev (run (new_slider
        (no_options\<lparr>set_slidesToScroll := Some 2, set_infinite := Some False\<rparr>) 3 100)
        [Fire 0])) = 0 \<and>
   isAnimating (next (run (new_slider
        (no_options\<lparr>set_slidesToScroll := Some 2, set_infinite := Some False\<rparr>) 3 100)
        [Fire 0, Next, Fire 0])) \<and>
   isAnimating (new_slider no_options 3 100) \<and>
   next (new_slider no_options 3 100) = new_slider no_options 3 100"
proof -
  let ?a = "run (new_slider no_options 3 100) [Fire 0, Next, Fire 0, Next, Fire 0]"
  let ?b = "run (new_slider no_options 3 100) [Fire 0]"
  let ?c = "run (new_slider
        (no_options\<lparr>set_slidesToScroll := Some 2, set_infinite := Some False\<rparr>) 3 100)
        [Fire 0, Next, Fire 0]"
  let ?d = "run (new_slider
        (no_options\<lparr>set_slidesToScroll := Some 2, set_infinite := Some False\<rparr>) 3 100)
        [Fire 0]"
  have a: "infinite_mode (options ?a)" "currentSlide ?a = 2" "totalSlides ?a = 3"
    "slidesToScroll (options ?a) = 1"
    by (simp_all add: slider_eval)
  have b: "infinite_mode (options ?b)" "currentSlide ?b = 0" "totalSlides ?b = 3"
    "slidesToScroll (options ?b) = 1"
    by (simp_all add: slider_eval)
  have c: "\<not> infinite_mode (options ?c)" "currentSlide ?c = 2" "totalSlides ?c = 3"
    "slidesToScroll (options ?c) = 2" "\<not> isAnimating ?c"
    by (simp_all add: slider_eval)
  have d: "\<not> infinite_mode (options ?d)" "currentSlide ?d = 0" "totalSlides ?d = 3"
    "slidesToScroll (options ?d) = 2"
    by (simp_all add: slider_eval)
  have e: "isAnimating (new_slider no_options 3 100)"
    by (simp add: slider_eval)
  from next_prev_targets[of ?a] a have 1: "next_target ?a = 0" by simp
  from next_prev_targets[of ?b] b have 2: "prev_target ?b = 2" by simp
  from next_prev_targets[of ?c] c have 3: "currentSlide (next ?c) = 2" by simp
  from next_prev_targets[of ?d] d have 4: "currentSlide (prev ?d) = 0" by simp
  from next_prev_targets[of ?c] c(5) have 5: "isAnimating (next ?c)" by blast
  from next_prev_targets[of "new_slider no_options 3 100"] e
  have 6: "next (new_slider no_options 3 100) = new_slider no_options 3 100" by blast
  show ?thesis
    by (intro conjI a(1,2) 1 b(2) 2 c(1,5,2) 3 d(2) 4 5 e 6)
qed

text \<open>
  The counterexample to the claim as stated: a slider of three slides made with
  \<open>{infinite: false}\<close>, at its last slide with no transition in flight. \<open>next\<close> keeps the index
  and is no no-op: it takes the lock and dispatches \<open>slideChange\<close>, and a \<open>prev\<close> that follows
  it directly is dropped where it would have gone to the second slide. And with
  \<open>slidesToScroll: -1\<close>, \<open>next\<close> at the last slide goes to the second.
\<close>

theorem next_at_last_slide_counterexample:
  "\<not> infinite_mode (options (run (new_slider (no_options\<lparr>set_infinite := Some False\<rparr>) 3 100)
        [Fire 0, Next, Fire 0, Next, Fire 0])) \<and>
   \<not> isAnimating (run (new_slider (no_options\<lparr>set_infinite := Some False\<rparr>) 3 100)
        [Fire 0, Next, Fire 0, Next, Fire 0]) \<and>
   totalSlides (run (new_slider (no_options\<lparr>set_infinite := Some False\<rparr>) 3 100)
        [Fire 0, Next, Fire 0, Next, Fire 0]) = 3 \<and>
   currentSlide (run (new_slider (no_options\<lparr>set_infinite := Some False\<rparr>) 3 100)
        [Fire 0, Next, Fire 0, Next, Fire 0]) = 2 \<and>
   next (run (new_slider (no_options\<lparr>set_infinite := Some False\<rparr>) 3 100)
        [Fire 0, Next, Fire 0, Next, Fire 0])
     \<noteq> run (new_slider (no_options\<lparr>set_infinite := Some False\<rparr>) 3 100)
        [Fire 0, Next, Fire 0, Next, Fire 0] \<and>
   isAnimating (next (run (new_slider (no_options\<lparr>set_infinite := Some False\<rparr>) 3 100)
        [Fire 0, Next, Fire 0, Next, Fire 0])) \<and>
   events (run (new_slider (no_options\<lparr>set_infinite := Some False\<rparr>) 3 100)
        [Fire 0, Next, Fire 0, Next, Fire 0])
     = [(''slideChange'', 0), (''slideChange'', 1), (''slideChange'', 2)] \<and>
   events (next (run (new_slider (no_options\<lparr>set_infinite := Some False\<rparr>) 3 100)
        [Fire 0, Next, Fire 0, Next, Fire 0]))
     = [(''slideChange'', 0), (''slideChange'', 1), (''slideChange'', 2), (''slideChange'', 2)] \<and>
   currentSlide (prev (run (new_slider (no_options\<lparr>set_infinite := Some False\<rparr>) 3 100)
        [Fire 0, Next, Fire 0, Next, Fire 0])) = 1 \<and>
   currentSlide (prev (next (run (new_slider (no_options\<lparr>set_infinite := Some False\<rparr>) 3 100)
        [Fire 0, Next, Fire 0, Next, Fire 0]))) = 2 \<and>
   currentSlide (run (new_slider
        (no_options\<lparr>set_slidesToScroll := Some (- 1), set_infinite := Some False\<rparr>) 3 100)
        [Fire 0, GoTo 2, Fire 0]) = 2 \<and>
   currentSlide (next (run (new_slider
        (no_options\<lparr>set_slidesToScroll := Some (- 1), set_infinite := Some False\<rparr>) 3 100)
        [Fire 0, GoTo 2, Fire 0])) = 1"
  by (simp add: slider_eval)

subsection \<open>The transition lock\<close>

text \<open>
  Claim C5. While \<open>isAnimating\<close> is set, \<open>goToSlide\<close> with any index returns the slider as it
  is: no field changes, no \<open>slideChange\<close> event is dispatched, and no time-out is set, so the
  call is not kept for later: whatever happens next happens as if it had not been made.
\<close>

theorem goToSlide_dropped_while_animating:
  assumes "isAnimating s"
  shows "goToSlide index s = s \<and> events (goToSlide index s) = events s
         \<and> timers (goToSlide index s) = timers s \<and> run (goToSlide index s) ops = run s ops"
  using assms by (simp add: goToSlide_def)

text \<open>The witness: the slider just constructed, whose first transition is still in flight.\<close>

theorem goToSlide_dropped_while_animating_witness:
  "isAnimating (new_slider no_options 3 100) \<and>
   goToSlide 2 (new_slider no_options 3 100) = new_slider no_options 3 100 \<and>
   events (goToSlide 2 (new_slider no_options 3 100)) = [(''slideChange'', 0)] \<and>
   currentSlide (run (goToSlide 2 (new_slider no_options 3 100)) [Fire 0]) = 0"
proof -
  have h: "isAnimating (new_slider no_options 3 100)" by (simp add: slider_eval)
  have e: "events (new_slider no_options 3 100) = [(''slideChange'', 0)]"
    by (simp add: slider_eval)
  have r: "currentSlide (run (new_slider no_options 3 100) [Fire 0]) = 0"
    by (simp add: slider_eval)
  from goToSlide_dropped_while_animating[OF h, of 2 "[Fire 0]"] h e r show ?thesis by simp
qed

subsection \<open>Drag release\<close>

lemma drag_moves:
  assumes "isDragging s" and "dragInstalled s"
  shows "isDragging (run s (map DragMove xs)) \<and>
         dragInstalled (run s (map DragMove xs)) \<and>
         startX (run s (map DragMove xs)) = startX s \<and>
         currentX (run s (map DragMove xs)) = (if xs = [] then currentX s else last xs) \<and>
         currentSlide (run s (map DragMove xs)) = currentSlide s \<and>
         isAnimating (run s (map DragMove xs)) = isAnimating s \<and>
         options (run s (map DragMove xs)) = options s \<and>
         totalSlides (run s (map DragMove xs)) = totalSlides s"
  using assms
proof (induction xs arbitrary: s)
  case Nil
  then show ?case by (simp add: run_def)
next
  case (Cons x xs)
  let ?t = "handleMove x s"
  have t: "isDragging ?t" "dragInstalled ?t" "startX ?t = startX s" "currentX ?t = x"
    "currentSlide ?t = currentSlide s" "isAnimating ?t = isAnimating s"
    "options ?t = options s" "totalSlides ?t = totalSlides s"
    using Cons.prems by (simp_all add: handleMove_def Let_def)
  have r: "run s (map DragMove (x # xs)) = run ?t (map DragMove xs)"
    using Cons.prems(2) by (simp add: run_def)
  from Cons.IH[OF t(1,2)] t show ?case unfolding r by simp
qed

lemma run_append: "run s (xs @ ys) = run (run s xs) ys"
  by (simp add: run_def)

lemma run_Cons: "run s (x # xs) = run (step s x) xs"
  by (simp add: run_def)

text \<open>The state when a gesture that started at \<open>xa\<close> and last moved to \<open>xb\<close> is released.\<close>

lemma drag_gesture:
  assumes "dragInstalled t"
  shows "isDragging (run t (DragStart xa # map DragMove (xs @ [xb]))) \<and>
   dragInstalled (run t (DragStart xa # map DragMove (xs @ [xb]))) \<and>
   currentX (run t (DragStart xa # map DragMove (xs @ [xb])))
     - startX (run t (DragStart xa # map DragMove (xs @ [xb]))) = xb - xa \<and>
   currentSlide (run t (DragStart xa # map DragMove (xs @ [xb]))) = currentSlide t \<and>
   isAnimating (run t (DragStart xa # map DragMove (xs @ [xb]))) = isAnimating t \<and>
   options (run t (DragStart xa # map DragMove (xs @ [xb]))) = options t \<and>
   totalSlides (run t (DragStart xa # map DragMove (xs @ [xb]))) = totalSlides t"
proof -
  let ?u = "handleStart xa t"
  have u: "isDragging ?u" "dragInstalled ?u" "startX ?u = xa"
    "currentSlide ?u = currentSlide t" "isAnimating ?u = isAnimating t"
    "options ?u = options t" "totalSlides ?u = totalSlides t"
    using assms by (simp_all add: handleStart_def)
  have r: "run t (DragStart xa # map DragMove (xs @ [xb])) = run ?u (map DragMove (xs @ [xb]))"
    using assms by (simp add: run_Cons)
  from drag_moves[OF u(1,2), of "xs @ [xb]"] u show ?thesis unfolding r by simp
qed

lemma handleEnd_currentSlide:
  assumes "isDragging s"
  shows "currentSlide (handleEnd s) =
         (if isAnimating s then currentSlide s
          else if \<bar>currentX s - startX s\<bar> > swipeThreshold (options s)
               then (if currentX s - startX s > 0 then prev_target s else next_target s)
               else currentSlide s)"
  using assms
  by (simp add: handleEnd_def Let_def goToSlide_currentSlide prev_currentSlide
      next_currentSlide prev_target_def next_target_def)

text \<open>
  What the release does right. \<open>handleEnd\<close> decides on \<open>diff = currentX - startX\<close>: when
  \<open>\<bar>diff\<bar>\<close> exceeds \<open>swipeThreshold\<close> the release is \<open>prev\<close> for a positive \<open>diff\<close> and \<open>next\<close>
  for a negative one, on the slider with the drag ended; otherwise \<open>currentSlide\<close> is what it
  was. For a gesture with at least one move event, which starts at \<open>xa\<close> and last moves to
  \<open>xb\<close>, and with no other call in between, \<open>diff\<close> is the pointer delta \<open>xb - xa\<close>, and the
  release leaves the index that \<open>prev\<close> or \<open>next\<close> gives from the slider before the gesture,
  or the index before the gesture.
\<close>

lemma release_after_a_move:
  assumes "isDragging s" and "d = currentX s - startX s"
    and "dragInstalled t" and "g = DragStart xa # map DragMove (xs @ [xb]) @ [DragEnd]"
  shows "(\<bar>d\<bar> > swipeThreshold (options s) \<and> d > 0
            \<longrightarrow> handleEnd s = prev (s\<lparr>isDragging := False, trackCursor := ''grab''\<rparr>)) \<and>
         (\<bar>d\<bar> > swipeThreshold (options s) \<and> d < 0
            \<longrightarrow> handleEnd s = next (s\<lparr>isDragging := False, trackCursor := ''grab''\<rparr>)) \<and>
         (\<not> \<bar>d\<bar> > swipeThreshold (options s)
            \<longrightarrow> currentSlide (handleEnd s) = currentSlide s) \<and>
         (\<bar>xb - xa\<bar> > swipeThreshold (options t) \<and> xb - xa > 0
            \<longrightarrow> currentSlide (run t g) = currentSlide (prev t)) \<and>
         (\<bar>xb - xa\<bar> > swipeThreshold (options t) \<and> xb - xa < 0
            \<longrightarrow> currentSlide (run t g) = currentSlide (next t)) \<and>
         (\<not> \<bar>xb - xa\<bar> > swipeThreshold (options t)
            \<longrightarrow> currentSlide (run t g) = currentSlide t)"
proof -
  let ?u = "run t (DragStart xa # map DragMove (xs @ [xb]))"
  note u = drag_gesture[OF assms(3), of xa xs xb]
  have "run t g = step ?u DragEnd"
    unfolding assms(4)
    using run_append[of t "DragStart xa # map DragMove (xs @ [xb])" "[DragEnd]"]
    by (simp add: run_def)
  then have g: "run t g = handleEnd ?u"
    using u by simp
  have tg: "next_target ?u = next_target t" "prev_target ?u = prev_target t"
    using u by (simp_all add: next_target_def prev_target_def Let_def)
  have e: "currentSlide (run t g) =
         (if isAnimating t then currentSlide t
          else if \<bar>xb - xa\<bar> > swipeThreshold (options t)
               then (if xb - xa > 0 then prev_target t else next_target t)
               else currentSlide t)"
    unfolding g using u tg by (simp add: handleEnd_currentSlide)
  have s1: "\<bar>d\<bar> > swipeThreshold (options s) \<and> d > 0
            \<longrightarrow> handleEnd s = prev (s\<lparr>isDragging := False, trackCursor := ''grab''\<rparr>)"
    using assms(1,2) by (auto simp: handleEnd_def Let_def)
  have s2: "\<bar>d\<bar> > swipeThreshold (options s) \<and> d < 0
            \<longrightarrow> handleEnd s = next (s\<lparr>isDragging := False, trackCursor := ''grab''\<rparr>)"
    using assms(1,2) by (auto simp: handleEnd_def Let_def)
  have s3: "\<not> \<bar>d\<bar> > swipeThreshold (options s)
            \<longrightarrow> currentSlide (handleEnd s) = currentSlide s"
    using assms(1,2) by (simp add: handleEnd_currentSlide)
  have g1: "\<bar>xb - xa\<bar> > swipeThreshold (options t) \<and> xb - xa > 0
            \<longrightarrow> currentSlide (run t g) = currentSlide (prev t)"
    unfolding e by (auto simp: prev_currentSlide)
  have g2: "\<bar>xb - xa\<bar> > swipeThreshold (options t) \<and> xb - xa < 0
            \<longrightarrow> currentSlide (run t g) = currentSlide (next t)"
    unfolding e by (auto simp: next_currentSlide)
  have g3: "\<not> \<bar>xb - xa\<bar> > swipeThreshold (options t)
            \<longrightarrow> currentSlide (run t g) = currentSlide t"
    unfolding e by auto
  show ?thesis by (intro conjI s1 s2 s3 g1 g2 g3)
qed

text \<open>
  Claim C4. For every drag gesture that ends with pointer delta \<open>d\<close>: when \<open>\<bar>d\<bar>\<close> exceeds the
  swipe threshold the release commits to \<open>prev\<close> (positive \<open>d\<close>) or \<open>next\<close> (negative \<open>d\<close>), and
  otherwise it restores the index before the drag. The code breaks this on a press that is
  released without a move: \<open>handleStart\<close> writes \<open>startX\<close> and leaves \<open>currentX\<close> as it was (0 at
  first, later the position of the last move of an earlier gesture), and \<open>handleEnd\<close> takes
  \<open>currentX - startX\<close> for the delta. On a slider of three slides with the default options
  (threshold 50, handlers registered), at its second slide with no transition in flight, a
  press at \<open>pageX\<close> 200 and its release, the pointer having moved by 0, give the delta
  \<open>0 - 200\<close>: \<open>next\<close> is called, \<open>slideChange\<close> is dispatched and the slider is at its third
  slide. The same gesture after one move event to 205 (delta 5) leaves the second slide.
\<close>

theorem release_without_move_changes_slide:
  "dragInstalled (run (new_slider no_options 3 100) [Fire 0, Next, Fire 0]) \<and>
   \<not> isAnimating (run (new_slider no_options 3 100) [Fire 0, Next, Fire 0]) \<and>
   swipeThreshold (options (run (new_slider no_options 3 100) [Fire 0, Next, Fire 0])) = 50 \<and>
   currentX (run (new_slider no_options 3 100) [Fire 0, Next, Fire 0]) = 0 \<and>
   currentSlide (run (new_slider no_options 3 100) [Fire 0, Next, Fire 0]) = 1 \<and>
   currentSlide (run (new_slider no_options 3 100)
     [Fire 0, Next, Fire 0, DragStart 200, DragEnd]) = 2 \<and>
   events (run (new_slider no_options 3 100) [Fire 0, Next, Fire 0, DragStart 200, DragEnd])
     = events (run (new_slider no_options 3 100) [Fire 0, Next, Fire 0])
       @ [(''slideChange'', 2)] \<and>
   currentSlide (run (new_slider no_options 3 100)
     [Fire 0, Next, Fire 0, DragStart 200, DragMove 205, DragEnd]) = 1"
  by (simp add: slider_eval)

subsection \<open>\<open>next\<close> followed by \<open>prev\<close>\<close>

lemma next_unlocked_shape:
  assumes "\<not> isAnimating s"
  shows "\<exists>u. next s = u\<lparr>timers := timers s @ [TransitionEnd]\<rparr> \<and> currentSlide u = next_target s
           \<and> options u = options s \<and> totalSlides u = totalSlides s"
proof -
  let ?u = "s\<lparr>isAnimating := True, currentSlide := next_target s,
      trackTransform := - (next_target s * slideWidth s),
      slideActive := active_marks (next_target s) (length (slideActive s)),
      dotActive := map_option (\<lambda>ds. active_marks (next_target s) (length ds)) (dotActive s),
      events := events s @ [(''slideChange'', next_target s)]\<rparr>"
  have "next s = ?u\<lparr>timers := timers s @ [TransitionEnd]\<rparr>"
    using assms
    by (simp add: next_def goToSlide_def Let_def updateActiveStates_def dispatchEvent_def
        setTimeout_def)
  moreover have "currentSlide ?u = next_target s" "options ?u = options s"
    "totalSlides ?u = totalSlides s"
    by simp_all
  ultimately show ?thesis by blast
qed

text \<open>
  Claim C6, as the code has it. From an index \<open>i\<close> at which \<open>next\<close> does not clamp or wrap
  (\<open>0 \<le> i\<close> and \<open>i + slidesToScroll < totalSlides\<close>, for a count \<open>slidesToScroll\<close>), with no
  transition in flight: \<open>next\<close>, then the end of its transition (the time-out it has set
  fires), then \<open>prev\<close> bring \<open>currentSlide\<close> back to \<open>i\<close>. A \<open>prev\<close> that comes while the
  transition of \<open>next\<close> is in flight is dropped, and \<open>currentSlide\<close> stays at
  \<open>i + slidesToScroll\<close>. With a transition in flight at the start both calls are dropped.
\<close>

theorem next_then_prev:
  assumes "0 \<le> slidesToScroll (options s)" and "0 \<le> currentSlide s"
    and "currentSlide s + slidesToScroll (options s) < totalSlides s"
  shows "(\<not> isAnimating s \<longrightarrow>
            currentSlide (prev (fire (length (timers s)) (next s))) = currentSlide s \<and>
            prev (next s) = next s \<and>
            currentSlide (prev (next s)) = currentSlide s + slidesToScroll (options s)) \<and>
         (isAnimating s \<longrightarrow> prev (next s) = s)"
proof (intro conjI impI)
  assume na: "\<not> isAnimating s"
  have nt: "next_target s = currentSlide s + slidesToScroll (options s)"
    using assms by (simp add: next_target_def Let_def)
  from next_unlocked_shape[OF na] obtain u where
    u: "next s = u\<lparr>timers := timers s @ [TransitionEnd]\<rparr>" "currentSlide u = next_target s"
       "options u = options s" "totalSlides u = totalSlides s" by blast
  let ?v = "u\<lparr>timers := timers s, isAnimating := False\<rparr>"
  have "fire (length (timers s)) (next s) = transitionEnd (u\<lparr>timers := timers s\<rparr>)"
    unfolding u(1) by (rule fire_last)
  also have "\<dots> = ?v"
    using u assms nt by (simp add: transitionEnd_def Let_def handleInfiniteLoop_in_range)
  finally have f: "fire (length (timers s)) (next s) = ?v" .
  have "prev_target ?v = currentSlide s"
    using u assms nt by (simp add: prev_target_def Let_def)
  then show "currentSlide (prev (fire (length (timers s)) (next s))) = currentSlide s"
    unfolding f by (simp add: prev_currentSlide)
  have an: "isAnimating (next s)" using na by (simp add: next_def goToSlide_unlocked)
  then show "prev (next s) = next s" by (simp add: prev_def goToSlide_locked_eq)
  then show "currentSlide (prev (next s)) = currentSlide s + slidesToScroll (options s)"
    using na nt by (simp add: next_currentSlide)
next
  assume "isAnimating s"
  then show "prev (next s) = s" by (simp add: prev_def next_def goToSlide_locked_eq)
qed

text \<open>
  The witness and the counterexample to the claim as stated share their input: a slider of
  five slides with the default options, at its second slide, no transition in flight.
\<close>

theorem next_then_prev_witness:
  "0 \<le> slidesToScroll (options (run (new_slider no_options 5 100) [Fire 0, Next, Fire 0])) \<and>
   0 \<le> currentSlide (run (new_slider no_options 5 100) [Fire 0, Next, Fire 0]) \<and>
   currentSlide (run (new_slider no_options 5 100) [Fire 0, Next, Fire 0])
     + slidesToScroll (options (run (new_slider no_options 5 100) [Fire 0, Next, Fire 0]))
     < totalSlides (run (new_slider no_options 5 100) [Fire 0, Next, Fire 0]) \<and>
   \<not> isAnimating (run (new_slider no_options 5 100) [Fire 0, Next, Fire 0]) \<and>
   timers (run (new_slider no_options 5 100) [Fire 0, Next, Fire 0]) = [] \<and>
   currentSlide (prev (fire 0 (next (run (new_slider no_options 5 100) [Fire 0, Next, Fire 0]))))
     = 1"
proof -
  let ?s = "run (new_slider no_options 5 100) [Fire 0, Next, Fire 0]"
  have h: "slidesToScroll (options ?s) = 1" "currentSlide ?s = 1" "totalSlides ?s = 5"
    "\<not> isAnimating ?s" "timers ?s = []"
    by (simp_all add: slider_eval)
  from next_then_prev[of ?s] h show ?thesis by simp
qed

theorem next_then_prev_counterexample:
  "\<not> isAnimating (run (new_slider no_options 5 100) [Fire 0, Next, Fire 0]) \<and>
   totalSlides (run (new_slider no_options 5 100) [Fire 0, Next, Fire 0]) = 5 \<and>
   slidesToScroll (options (run (new_slider no_options 5 100) [Fire 0, Next, Fire 0])) = 1 \<and>
   currentSlide (run (new_slider no_options 5 100) [Fire 0, Next, Fire 0]) = 1 \<and>
   next_target (run (new_slider no_options 5 100) [Fire 0, Next, Fire 0]) = 2 \<and>
   prev_target (run (new_slider no_options 5 100) [Fire 0, Next, Fire 0]) = 0 \<and>
   currentSlide (prev (next (run (new_slider no_options 5 100) [Fire 0, Next, Fire 0]))) = 2"
  by (simp add: slider_eval)

subsection \<open>Resize\<close>

lemma foldl_apply_breakpoint:
  "foldl (apply_breakpoint w) opt rules
     = foldl assign opt (map settings (filter (\<lambda>bp. w \<le> breakpoint bp) rules))"
  by (induction rules arbitrary: opt) (simp_all add: apply_breakpoint_def)

lemma assign_idem: "assign (assign opt t) t = assign opt t"
  by (simp add: assign_def override_def split: option.split)

text \<open>
  Claim C2, as the code has it. On a resize every matching rule (window width at or below
  the rule's threshold) is assigned to the options, in the order of the \<open>responsive\<close> array,
  which is not sorted. So the last matching rule of the array prevails: the options carry
  each of its keys afterwards. When exactly one rule matches, the options are overridden by
  that rule. \<open>currentSlide\<close> is unchanged, and the slider is rendered at it again (the offset
  is set and \<open>slideChange\<close> dispatched) when no transition is in flight; the re-rendering is
  dropped otherwise.
\<close>

theorem resize_applies_matching_rules:
  "options (handleResize w s)
     = foldl assign (options s)
         (map settings (filter (\<lambda>bp. w \<le> breakpoint bp) (responsive (options s)))) \<and>
   (filter (\<lambda>bp. w \<le> breakpoint bp) (responsive (options s)) = rs @ [r]
      \<longrightarrow> has_settings (options (handleResize w s)) (settings r)) \<and>
   (filter (\<lambda>bp. w \<le> breakpoint bp) (responsive (options s)) = [r]
      \<longrightarrow> options (handleResize w s) = assign (options s) (settings r)) \<and>
   currentSlide (handleResize w s) = currentSlide s \<and>
   (\<not> isAnimating s \<longrightarrow>
      trackTransform (handleResize w s) = - currentSlide s * slideWidth s \<and>
      events (handleResize w s) = events s @ [(''slideChange'', currentSlide s)]) \<and>
   (isAnimating s \<longrightarrow>
      trackTransform (handleResize w s) = trackTransform s \<and>
      events (handleResize w s) = events s)"
proof -
  have o: "options (handleResize w s)
     = foldl assign (options s)
         (map settings (filter (\<lambda>bp. w \<le> breakpoint bp) (responsive (options s))))"
    by (simp add: handleResize_def Let_def goToSlide_frame foldl_apply_breakpoint)
  show ?thesis
    unfolding o
    by (auto simp: handleResize_def Let_def goToSlide_currentSlide goToSlide_unlocked
        goToSlide_locked_eq has_settings_def assign_idem)
qed

text \<open>
  The witness and the counterexample to the claim as stated share their input: three slides
  and the rules \<open>[{breakpoint: 480, settings: {slidesToShow: 1}}, {breakpoint: 768, settings:
  {slidesToShow: 2}}]\<close>, in ascending order of threshold. At width 400 both rules match, and
  \<open>slidesToShow\<close> ends at 2, the value of the rule with the higher threshold.
\<close>

theorem resize_applies_matching_rules_witness:
  "filter (\<lambda>bp. 400 \<le> breakpoint bp)
     (responsive (options (run (new_slider (no_options\<lparr>set_responsive := Some
       [\<lparr>breakpoint = 480, settings = no_settings\<lparr>set_slidesToShow := Some 1\<rparr>\<rparr>,
        \<lparr>breakpoint = 768, settings = no_settings\<lparr>set_slidesToShow := Some 2\<rparr>\<rparr>]\<rparr>) 3 100)
       [Fire 0])))
     = [\<lparr>breakpoint = 480, settings = no_settings\<lparr>set_slidesToShow := Some 1\<rparr>\<rparr>]
       @ [\<lparr>breakpoint = 768, settings = no_settings\<lparr>set_slidesToShow := Some 2\<rparr>\<rparr>] \<and>
   has_settings
     (options (handleResize 400 (run (new_slider (no_options\<lparr>set_responsive := Some
       [\<lparr>breakpoint = 480, settings = no_settings\<lparr>set_slidesToShow := Some 1\<rparr>\<rparr>,
        \<lparr>breakpoint = 768, settings = no_settings\<lparr>set_slidesToShow := Some 2\<rparr>\<rparr>]\<rparr>) 3 100)
       [Fire 0])))
     (no_settings\<lparr>set_slidesToShow := Some 2\<rparr>) \<and>
   \<not> isAnimating (run (new_slider (no_options\<lparr>set_responsive := Some
       [\<lparr>breakpoint = 480, settings = no_settings\<lparr>set_slidesToShow := Some 1\<rparr>\<rparr>,
        \<lparr>breakpoint = 768, settings = no_settings\<lparr>set_slidesToShow := Some 2\<rparr>\<rparr>]\<rparr>) 3 100)
       [Fire 0]) \<and>
   events (handleResize 400 (run (new_slider (no_options\<lparr>set_responsive := Some
       [\<lparr>breakpoint = 480, settings = no_settings\<lparr>set_slidesToShow := Some 1\<rparr>\<rparr>,
        \<lparr>breakpoint = 768, settings = no_settings\<lparr>set_slidesToShow := Some 2\<rparr>\<rparr>]\<rparr>) 3 100)
       [Fire 0]))
     = [(''slideChange'', 0), (''slideChange'', 0)] \<and>
   isAnimating (new_slider (no_options\<lparr>set_responsive := Some
       [\<lparr>breakpoint = 480, settings = no_settings\<lparr>set_slidesToShow := Some 1\<rparr>\<rparr>,
        \<lparr>breakpoint = 768, settings = no_settings\<lparr>set_slidesToShow := Some 2\<rparr>\<rparr>]\<rparr>) 3 100) \<and>
   events (handleResize 400 (new_slider (no_options\<lparr>set_responsive := Some
       [\<lparr>breakpoint = 480, settings = no_settings\<lparr>set_slidesToShow := Some 1\<rparr>\<rparr>,
        \<lparr>breakpoint = 768, settings = no_settings\<lparr>set_slidesToShow := Some 2\<rparr>\<rparr>]\<rparr>) 3 100))
     = [(''slideChange'', 0)]"
proof -
  let ?r1 = "\<lparr>breakpoint = 480, settings = no_settings\<lparr>set_slidesToShow := Some 1\<rparr>\<rparr>"
  let ?r2 = "\<lparr>breakpoint = 768, settings = no_settings\<lparr>set_slidesToShow := Some 2\<rparr>\<rparr>"
  let ?b = "new_slider (no_options\<lparr>set_responsive := Some [?r1, ?r2]\<rparr>) 3 100"
  let ?a = "run ?b [Fire 0]"
  have a: "filter (\<lambda>bp. 400 \<le> breakpoint bp) (responsive (options ?a)) = [?r1] @ [?r2]"
    "\<not> isAnimating ?a" "events ?a = [(''slideChange'', 0)]" "currentSlide ?a = 0"
    by (simp_all add: slider_eval)
  have b: "isAnimating ?b" "events ?b = [(''slideChange'', 0)]"
    by (simp_all add: slider_eval)
  note ta = resize_applies_matching_rules[where w = 400 and s = ?a and rs = "[?r1]" and r = ?r2]
  note tb = resize_applies_matching_rules[where w = 400 and s = ?b and rs = "[?r1]" and r = ?r2]
  from ta a(1) have "has_settings (options (handleResize 400 ?a)) (settings ?r2)"
    by blast
  then have 1: "has_settings (options (handleResize 400 ?a))
      (no_settings\<lparr>set_slidesToShow := Some 2\<rparr>)"
    by simp
  from ta a(2) have "events (handleResize 400 ?a)
      = events ?a @ [(''slideChange'', currentSlide ?a)]"
    by blast
  then have 2: "events (handleResize 400 ?a) = [(''slideChange'', 0), (''slideChange'', 0)]"
    by (simp add: a(3,4))
  from tb b(1) have "events (handleResize 400 ?b) = events ?b"
    by blast
  then have 3: "events (handleResize 400 ?b) = [(''slideChange'', 0)]"
    by (simp add: b(2))
  from a(1,2) b(1) 1 2 3 show ?thesis by blast
qed

theorem resize_first_match_counterexample:
  "spec_first_match 400
     [\<lparr>breakpoint = 480, settings = no_settings\<lparr>set_slidesToShow := Some 1\<rparr>\<rparr>,
      \<lparr>breakpoint = 768, settings = no_settings\<lparr>set_slidesToShow := Some 2\<rparr>\<rparr>]
     = Some \<lparr>breakpoint = 480, settings = no_settings\<lparr>set_slidesToShow := Some 1\<rparr>\<rparr> \<and>
   slidesToShow (spec_resize_options 400 (options (new_slider (no_options\<lparr>set_responsive := Some
     [\<lparr>breakpoint = 480, settings = no_settings\<lparr>set_slidesToShow := Some 1\<rparr>\<rparr>,
      \<lparr>breakpoint = 768, settings = no_settings\<lparr>set_slidesToShow := Some 2\<rparr>\<rparr>]\<rparr>) 3 100))) = 1 \<and>
   slidesToShow (options (handleResize 400 (new_slider (no_options\<lparr>set_responsive := Some
     [\<lparr>breakpoint = 480, settings = no_settings\<lparr>set_slidesToShow := Some 1\<rparr>\<rparr>,
      \<lparr>breakpoint = 768, settings = no_settings\<lparr>set_slidesToShow := Some 2\<rparr>\<rparr>]\<rparr>) 3 100))) = 2 \<and>
   options (handleResize 400 (new_slider (no_options\<lparr>set_responsive := Some
     [\<lparr>breakpoint = 480, settings = no_settings\<lparr>set_slidesToShow := Some 1\<rparr>\<rparr>,
      \<lparr>breakpoint = 768, settings = no_settings\<lparr>set_slidesToShow := Some 2\<rparr>\<rparr>]\<rparr>) 3 100))
     \<noteq> spec_resize_options 400 (options (new_slider (no_options\<lparr>set_responsive := Some
     [\<lparr>breakpoint = 480, settings = no_settings\<lparr>set_slidesToShow := Some 1\<rparr>\<rparr>,
      \<lparr>breakpoint = 768, settings = no_settings\<lparr>set_slidesToShow := Some 2\<rparr>\<rparr>]\<rparr>) 3 100))"
  by (simp add: slider_eval spec_resize_options_def spec_first_match_def)

section \<open>Properties of the storage functions\<close>

lemma getStorage_returns: "\<not> isl (fst (getStorage h key pg))"
  by (simp add: getStorage_def try_catch_def split: sum.split option.split)

lemma setStorage_returns: "\<not> isl (fst (setStorage h key val pg))"
  by (simp add: setStorage_def try_catch_def split: sum.split)

text \<open>
  Claim C9. No exception leaves \<open>getStorage\<close> or \<open>setStorage\<close>. When \<open>getItem\<close> throws (or
  \<open>JSON.parse\<close> does), \<open>getStorage\<close> returns \<open>null\<close>; when \<open>setItem\<close> throws (or
  \<open>JSON.stringify\<close> does), \<open>setStorage\<close> returns with the storage as it was. In each case
  the only change is one more line on the console, which carries the exception.
  \<open>getStorage\<close> never writes the storage.
\<close>

theorem storage_failure_is_caught:
  "\<not> isl (fst (getStorage h key pg)) \<and> \<not> isl (fst (setStorage h key val pg)) \<and>
   localStorage (snd (getStorage h key pg)) = localStorage pg \<and>
   (getItem h (localStorage pg) key = Inl e \<longrightarrow>
      getStorage h key pg
        = (Inr None, pg\<lparr>console := console pg @ [(''Error getting storage:'', e)]\<rparr>)) \<and>
   (getItem h (localStorage pg) key = Inr (Some item) \<and> item \<noteq> [] \<and> JSON_parse h item = Inl e \<longrightarrow>
      getStorage h key pg
        = (Inr None, pg\<lparr>console := console pg @ [(''Error getting storage:'', e)]\<rparr>)) \<and>
   (JSON_stringify h val = Inr str \<and> setItem h (localStorage pg) key str = Inl e \<longrightarrow>
      setStorage h key val pg
        = (Inr (), pg\<lparr>console := console pg @ [(''Error setting storage:'', e)]\<rparr>)) \<and>
   (JSON_stringify h val = Inl e \<longrightarrow>
      setStorage h key val pg
        = (Inr (), pg\<lparr>console := console pg @ [(''Error setting storage:'', e)]\<rparr>))"
proof (intro conjI impI)
  show "\<not> isl (fst (getStorage h key pg))" by (rule getStorage_returns)
  show "\<not> isl (fst (setStorage h key val pg))" by (rule setStorage_returns)
  show "localStorage (snd (getStorage h key pg)) = localStorage pg"
    by (simp add: getStorage_def try_catch_def console_error_def split: sum.split option.split)
next
  assume "getItem h (localStorage pg) key = Inl e"
  then show "getStorage h key pg
        = (Inr None, pg\<lparr>console := console pg @ [(''Error getting storage:'', e)]\<rparr>)"
    by (simp add: getStorage_def try_catch_def console_error_def)
next
  assume "getItem h (localStorage pg) key = Inr (Some item) \<and> item \<noteq> [] \<and> JSON_parse h item = Inl e"
  then show "getStorage h key pg
        = (Inr None, pg\<lparr>console := console pg @ [(''Error getting storage:'', e)]\<rparr>)"
    by (simp add: getStorage_def try_catch_def console_error_def)
next
  assume "JSON_stringify h val = Inr str \<and> setItem h (localStorage pg) key str = Inl e"
  then show "setStorage h key val pg
        = (Inr (), pg\<lparr>console := console pg @ [(''Error setting storage:'', e)]\<rparr>)"
    by (simp add: setStorage_def try_catch_def console_error_def)
next
  assume "JSON_stringify h val = Inl e"
  then show "setStorage h key val pg
        = (Inr (), pg\<lparr>console := console pg @ [(''Error setting storage:'', e)]\<rparr>)"
    by (simp add: setStorage_def try_catch_def console_error_def)
qed

text \<open>
  The witness: with access to the storage denied, reading the theme gives \<open>null\<close> and writing
  it leaves the stored theme as it was, each with one line on the console.
\<close>

theorem storage_failure_is_caught_witness:
  "getItem denied_host [(''theme'', ''dark'')] ''theme'' = Inl SecurityError \<and>
   getStorage denied_host ''theme'' \<lparr>localStorage = [(''theme'', ''dark'')], console = []\<rparr>
     = (Inr None, \<lparr>localStorage = [(''theme'', ''dark'')],
                   console = [(''Error getting storage:'', SecurityError)]\<rparr>) \<and>
   JSON_stringify denied_host ''light'' = Inr ''light'' \<and>
   setItem denied_host [(''theme'', ''dark'')] ''theme'' ''light'' = Inl QuotaExceededError \<and>
   setStorage denied_host ''theme'' ''light''
       \<lparr>localStorage = [(''theme'', ''dark'')], console = []\<rparr>
     = (Inr (), \<lparr>localStorage = [(''theme'', ''dark'')],
                 console = [(''Error setting storage:'', QuotaExceededError)]\<rparr>)"
proof -
  let ?pg = "\<lparr>localStorage = [(''theme'', ''dark'')], console = []\<rparr>"
  have g: "getItem denied_host (localStorage ?pg) ''theme'' = Inl SecurityError"
    by (simp add: denied_host_def plain_host_def)
  have j: "JSON_stringify denied_host ''light'' = Inr ''light''"
    by (simp add: denied_host_def plain_host_def)
  have s: "setItem denied_host (localStorage ?pg) ''theme'' ''light'' = Inl QuotaExceededError"
    by (simp add: denied_host_def plain_host_def)
  note t1 = storage_failure_is_caught[where h = denied_host and key = "''theme''" and pg = ?pg
      and e = SecurityError and val = "''light''"]
  note t2 = storage_failure_is_caught[where h = denied_host and key = "''theme''" and pg = ?pg
      and e = QuotaExceededError and val = "''light''" and str = "''light''"]
  from t1 g have 1: "getStorage denied_host ''theme'' ?pg
      = (Inr None, ?pg\<lparr>console := console ?pg @ [(''Error getting storage:'', SecurityError)]\<rparr>)"
    by blast
  from t2 j s have 2: "setStorage denied_host ''theme'' ''light'' ?pg
      = (Inr (), ?pg\<lparr>console := console ?pg @ [(''Error setting storage:'', QuotaExceededError)]\<rparr>)"
    by blast
  from g j s 1 2 show ?thesis by simp
qed

end
